theory Spec2Isabelle
  imports Main "HOL-Library.Word"
begin

section \<open>JavaScript values used by the Timer model\<close>

text \<open>
  A JavaScript string is a sequence of 16-bit code units. String literals of the source
  are written with \<open>js\<close>, which maps the ASCII characters of an Isabelle string to their
  code units.
\<close>

type_synonym jsstring = "16 word list"

text \<open>The code unit with a given number below \<open>2 ^ 16\<close>.\<close>

definition code_unit :: "nat \<Rightarrow> 16 word" where
  "code_unit n = of_nat n"

definition js :: "string \<Rightarrow> jsstring" where
  "js s = map (\<lambda>c. of_nat (of_char c)) s"

text \<open>
  JavaScript numbers are IEEE doubles. The numbers held by a project are results of
  \<open>Date.getTime()\<close>, of sums and differences of such values, and of \<open>parseInt\<close>:
  doubles with an integer value, \<open>NaN\<close>, or an infinity. \<open>Num a\<close> is the double whose
  value is the integer \<open>a\<close>.
\<close>

datatype number = NaN | Num int | Infinity | MinusInfinity

text \<open>
  The result of an operation is its exact result rounded to the nearest double, a tie
  going to the double with the even significand. A double has a significand of 53 bits:
  \<open>shift_amount m\<close> is the number of low bits of \<open>m\<close> that do not fit, and
  \<open>round_magnitude m\<close> the nearest multiple of \<open>2 ^ shift_amount m\<close>. Every integer up to
  \<open>2 ^ 53\<close> is a double; a result that rounds to \<open>2 ^ 1024\<close> or more is an infinity.
\<close>

function shift_amount :: "nat \<Rightarrow> nat" where
  "shift_amount m = (if m < 2 ^ 53 then 0 else Suc (shift_amount (m div 2)))"
  by pat_completeness auto
termination
  by (relation "measure id") auto

declare shift_amount.simps [simp del]

definition round_magnitude :: "nat \<Rightarrow> nat" where
  "round_magnitude m =
     (let ulp = 2 ^ shift_amount m; q = m div ulp; r = m mod ulp
      in if ulp < 2 * r \<or> (2 * r = ulp \<and> odd q) then (q + 1) * ulp else q * ulp)"

definition to_number :: "int \<Rightarrow> number" where
  "to_number x =
     (let r = round_magnitude (nat \<bar>x\<bar>)
      in if 2 ^ 1024 \<le> r then (if x < 0 then MinusInfinity else Infinity)
         else Num (if x < 0 then - int r else int r))"

text \<open>The operators \<open>+\<close> and \<open>-\<close> on these numbers.\<close>

fun num_add :: "number \<Rightarrow> number \<Rightarrow> number" where
  "num_add (Num a) (Num b) = to_number (a + b)"
| "num_add NaN _ = NaN"
| "num_add _ NaN = NaN"
| "num_add Infinity MinusInfinity = NaN"
| "num_add MinusInfinity Infinity = NaN"
| "num_add Infinity _ = Infinity"
| "num_add _ Infinity = Infinity"
| "num_add MinusInfinity _ = MinusInfinity"
| "num_add _ MinusInfinity = MinusInfinity"

fun num_sub :: "number \<Rightarrow> number \<Rightarrow> number" where
  "num_sub (Num a) (Num b) = to_number (a - b)"
| "num_sub NaN _ = NaN"
| "num_sub _ NaN = NaN"
| "num_sub Infinity Infinity = NaN"
| "num_sub MinusInfinity MinusInfinity = NaN"
| "num_sub Infinity _ = Infinity"
| "num_sub _ MinusInfinity = Infinity"
| "num_sub MinusInfinity _ = MinusInfinity"
| "num_sub _ Infinity = MinusInfinity"

text \<open>
  The values that occur as array elements and in the \<open>_state\<close> attribute. \<open>_state\<close>
  holds whatever was assigned to it: one of the two tags of \<open>Project.State\<close>, or after
  \<open>deserialize\<close> any string or \<open>undefined\<close>.
\<close>

datatype jsval = Undefined | Str jsstring | Number number

text \<open>
  An event-handler slot. The only thing the source ever asks about a slot is
  \<open>typeof slot == "function"\<close>; \<open>Handler h\<close> is the function object \<open>h\<close>, \<open>Null\<close> the
  initial \<open>null\<close>.
\<close>

datatype slot = Null | Handler nat

section \<open>The built-in functions the source calls\<close>

text \<open>
  These functions belong to the language, not to the repository; they are modelled after
  the ECMAScript specification, as far as the source uses them.
\<close>

text \<open>
  The exceptions: the \<open>URIError\<close> of \<open>encodeURIComponent\<close> and \<open>decodeURIComponent\<close>, and
  the string \<open>"Invalid project state."\<close> that the view throws.
\<close>

datatype error = URIError | InvalidProjectState

subsection \<open>\<open>String.prototype.split\<close> and \<open>Array.prototype.join\<close>\<close>

text \<open>
  \<open>s.split(sep)\<close> for a separator of one code unit (the source splits on \<open>"&"\<close> and on
  \<open>"|"\<close>). The result is never empty: splitting the empty string gives one empty string.
\<close>

fun String_split :: "16 word \<Rightarrow> jsstring \<Rightarrow> jsstring list" where
  "String_split sep [] = [[]]"
| "String_split sep (c # cs) =
     (if c = sep then [] # String_split sep cs
      else (case String_split sep cs of
              [] \<Rightarrow> [[c]]
            | part # parts \<Rightarrow> (c # part) # parts))"

text \<open>\<open>parts[i]\<close>: reading an array beyond its end gives \<open>undefined\<close>.\<close>

definition Array_get :: "jsstring list \<Rightarrow> nat \<Rightarrow> jsval" where
  "Array_get parts i = (if i < length parts then Str (parts ! i) else Undefined)"

definition digit_char :: "nat \<Rightarrow> 16 word" where
  "digit_char d = code_unit (0x30 + d)"

function decimal :: "nat \<Rightarrow> jsstring" where
  "decimal n = (if n < 10 then [digit_char n] else decimal (n div 10) @ [digit_char (n mod 10)])"
  by pat_completeness auto
termination
  by (relation "measure id") auto

declare decimal.simps [simp del]

text \<open>
  \<open>ToString\<close> of a number: for an integer its decimal digits. (That is what JavaScript
  prints for the integers up to \<open>2 ^ 53\<close>; a larger double is printed with the fewest
  digits that identify it, and from \<open>10 ^ 21\<close> on with an exponent, which the model does
  not follow.)
\<close>

fun NumberToString :: "number \<Rightarrow> jsstring" where
  "NumberToString NaN = js ''NaN''"
| "NumberToString (Num i) = (if i < 0 then js ''-'' @ decimal (nat (- i)) else decimal (nat i))"
| "NumberToString Infinity = js ''Infinity''"
| "NumberToString MinusInfinity = js ''-Infinity''"

fun ToString :: "jsval \<Rightarrow> jsstring" where
  "ToString Undefined = js ''undefined''"
| "ToString (Str s) = s"
| "ToString (Number n) = NumberToString n"

text \<open>
  \<open>join\<close> converts each element with \<open>ToString\<close>, except that \<open>undefined\<close> becomes the
  empty string.
\<close>

fun join_element :: "jsval \<Rightarrow> jsstring" where
  "join_element Undefined = []"
| "join_element v = ToString v"

fun join_strings :: "jsstring \<Rightarrow> jsstring list \<Rightarrow> jsstring" where
  "join_strings sep [] = []"
| "join_strings sep [x] = x"
| "join_strings sep (x # y # ys) = x @ sep @ join_strings sep (y # ys)"

definition Array_join :: "jsstring \<Rightarrow> jsval list \<Rightarrow> jsstring" where
  "Array_join sep elems = join_strings sep (map join_element elems)"

subsection \<open>\<open>parseInt\<close>\<close>

text \<open>
  \<open>parseInt(string)\<close> without a radix: skip leading white space, read a sign, take the
  radix 16 after a prefix \<open>0x\<close> or \<open>0X\<close> and 10 otherwise, and read the longest prefix
  of digits of that radix; the result is \<open>NaN\<close> when that prefix is empty, and else the
  double nearest to the integer read. (From the 21st significant decimal digit on,
  ECMAScript lets an implementation read a digit as 0; the model reads every digit.)
\<close>

definition isStrWhiteSpaceChar :: "16 word \<Rightarrow> bool" where
  "isStrWhiteSpaceChar c \<longleftrightarrow>
     (let u = unat c
      in (0x9 \<le> u \<and> u \<le> 0xD) \<or> u = 0x20 \<or> u = 0xA0 \<or> u = 0x1680 \<or>
         (0x2000 \<le> u \<and> u \<le> 0x200A) \<or> u = 0x2028 \<or> u = 0x2029 \<or> u = 0x202F \<or>
         u = 0x205F \<or> u = 0x3000 \<or> u = 0xFEFF)"

text \<open>The value of a code unit as a digit; 36 when it is not a digit in any radix.\<close>

definition digit_value :: "16 word \<Rightarrow> nat" where
  "digit_value c =
     (let u = unat c
      in if 0x30 \<le> u \<and> u \<le> 0x39 then u - 0x30
         else if 0x61 \<le> u \<and> u \<le> 0x7A then u - 0x61 + 10
         else if 0x41 \<le> u \<and> u \<le> 0x5A then u - 0x41 + 10
         else 36)"

definition radix_value :: "nat \<Rightarrow> jsstring \<Rightarrow> nat" where
  "radix_value R Z = foldl (\<lambda>acc c. R * acc + digit_value c) 0 Z"

definition parseInt_string :: "jsstring \<Rightarrow> number" where
  "parseInt_string inputString =
     (let S = dropWhile isStrWhiteSpaceChar inputString;
          sign = (case S of c # _ \<Rightarrow> if c = 0x2D then - 1 else 1 | [] \<Rightarrow> (1::int));
          S = (case S of c # rest \<Rightarrow> if c = 0x2B \<or> c = 0x2D then rest else S | [] \<Rightarrow> S);
          R = (case S of a # b # _ \<Rightarrow> if a = 0x30 \<and> (b = 0x78 \<or> b = 0x58) then 16 else 10
                       | _ \<Rightarrow> (10::nat));
          S = (if R = 16 then drop 2 S else S);
          Z = takeWhile (\<lambda>c. digit_value c < R) S
      in if Z = [] then NaN else to_number (sign * int (radix_value R Z)))"

definition parseInt :: "jsval \<Rightarrow> number" where
  "parseInt v = parseInt_string (ToString v)"

subsection \<open>\<open>encodeURIComponent\<close> and \<open>decodeURIComponent\<close>\<close>

text \<open>
  The characters \<open>encodeURIComponent\<close> leaves alone: letters, decimal digits and the
  marks \<open>- _ . ! ~ * ' ( )\<close>.
\<close>

definition uriUnescaped :: "16 word \<Rightarrow> bool" where
  "uriUnescaped c \<longleftrightarrow>
     (let u = unat c
      in (0x61 \<le> u \<and> u \<le> 0x7A) \<or> (0x41 \<le> u \<and> u \<le> 0x5A) \<or> (0x30 \<le> u \<and> u \<le> 0x39) \<or>
         u = 0x2D \<or> u = 0x5F \<or> u = 0x2E \<or> u = 0x21 \<or> u = 0x7E \<or> u = 0x2A \<or>
         (0x27 \<le> u \<and> u \<le> 0x29))"

text \<open>The UTF-8 octets of a code point.\<close>

definition utf8_octets :: "nat \<Rightarrow> nat list" where
  "utf8_octets V =
     (if V < 0x80 then [V]
      else if V < 0x800 then [0xC0 + V div 0x40, 0x80 + V mod 0x40]
      else if V < 0x10000 then
        [0xE0 + V div 0x1000, 0x80 + V div 0x40 mod 0x40, 0x80 + V mod 0x40]
      else
        [0xF0 + V div 0x40000, 0x80 + V div 0x1000 mod 0x40, 0x80 + V div 0x40 mod 0x40,
         0x80 + V mod 0x40])"

definition hex_char :: "nat \<Rightarrow> 16 word" where
  "hex_char d = (if d < 10 then code_unit (0x30 + d) else code_unit (0x37 + d))"

text \<open>An octet as \<open>%XY\<close>, with upper-case hexadecimal digits.\<close>

definition escape_octet :: "nat \<Rightarrow> jsstring" where
  "escape_octet b = [0x25, hex_char (b div 16), hex_char (b mod 16)]"

definition escape_octets :: "nat list \<Rightarrow> jsstring" where
  "escape_octets bs = concat (map escape_octet bs)"

definition isLeadSurrogate :: "16 word \<Rightarrow> bool" where
  "isLeadSurrogate c \<longleftrightarrow> 0xD800 \<le> unat c \<and> unat c \<le> 0xDBFF"

definition isTrailSurrogate :: "16 word \<Rightarrow> bool" where
  "isTrailSurrogate c \<longleftrightarrow> 0xDC00 \<le> unat c \<and> unat c \<le> 0xDFFF"

definition surrogate_pair_value :: "16 word \<Rightarrow> 16 word \<Rightarrow> nat" where
  "surrogate_pair_value hi lo = (unat hi - 0xD800) * 0x400 + (unat lo - 0xDC00) + 0x10000"

text \<open>A string is well formed when it has no lone surrogate (\<open>isWellFormed\<close>).\<close>

fun isWellFormed :: "jsstring \<Rightarrow> bool" where
  "isWellFormed [] = True"
| "isWellFormed (c # cs) =
     (if isLeadSurrogate c then
        (case cs of [] \<Rightarrow> False | k # rest \<Rightarrow> isTrailSurrogate k \<and> isWellFormed rest)
      else \<not> isTrailSurrogate c \<and> isWellFormed cs)"

text \<open>
  \<open>Encode\<close> with the unescaped set of \<open>encodeURIComponent\<close>: a lone surrogate raises
  \<open>URIError\<close>.
\<close>

fun encodeURIComponent :: "jsstring \<Rightarrow> error + jsstring" where
  "encodeURIComponent [] = Inr []"
| "encodeURIComponent (c # cs) =
     (if uriUnescaped c then
        (case encodeURIComponent cs of Inl e \<Rightarrow> Inl e | Inr r \<Rightarrow> Inr (c # r))
      else if isTrailSurrogate c then Inl URIError
      else if \<not> isLeadSurrogate c then
        (case encodeURIComponent cs of
           Inl e \<Rightarrow> Inl e
         | Inr r \<Rightarrow> Inr (escape_octets (utf8_octets (unat c)) @ r))
      else
        (case cs of
           [] \<Rightarrow> Inl URIError
         | k # rest \<Rightarrow>
             if \<not> isTrailSurrogate k then Inl URIError
             else
               (case encodeURIComponent rest of
                  Inl e \<Rightarrow> Inl e
                | Inr r \<Rightarrow> Inr (escape_octets (utf8_octets (surrogate_pair_value c k)) @ r))))"

definition hex_value :: "16 word \<Rightarrow> nat option" where
  "hex_value c =
     (let u = unat c
      in if 0x30 \<le> u \<and> u \<le> 0x39 then Some (u - 0x30)
         else if 0x41 \<le> u \<and> u \<le> 0x46 then Some (u - 0x37)
         else if 0x61 \<le> u \<and> u \<le> 0x66 then Some (u - 0x57)
         else None)"

text \<open>Reads one escape \<open>%XY\<close> at the head of a string: the octet and the rest.\<close>

fun read_escape :: "jsstring \<Rightarrow> (nat \<times> jsstring) option" where
  "read_escape (p # h # l # rest) =
     (if p = 0x25 then
        (case hex_value h of
           None \<Rightarrow> None
         | Some a \<Rightarrow> (case hex_value l of None \<Rightarrow> None | Some b \<Rightarrow> Some (16 * a + b, rest)))
      else None)"
| "read_escape _ = None"

text \<open>
  Reads \<open>n\<close> further escapes, each an octet of the form \<open>10xxxxxx\<close>; returns their
  payloads and the rest.
\<close>

fun read_continuation :: "nat \<Rightarrow> jsstring \<Rightarrow> (nat list \<times> jsstring) option" where
  "read_continuation 0 s = Some ([], s)"
| "read_continuation (Suc n) s =
     (case read_escape s of
        None \<Rightarrow> None
      | Some (B, rest) \<Rightarrow>
          if B div 0x40 \<noteq> 2 then None
          else (case read_continuation n rest of
                  None \<Rightarrow> None
                | Some (bs, rest') \<Rightarrow> Some (B mod 0x40 # bs, rest')))"

text \<open>
  The number of octets announced by a leading octet \<open>B \<ge> 0x80\<close>: the number of its
  leading one bits.
\<close>

definition leading_ones :: "nat \<Rightarrow> nat" where
  "leading_ones B =
     (if B < 0x80 then 0 else if B < 0xC0 then 1 else if B < 0xE0 then 2
      else if B < 0xF0 then 3 else if B < 0xF8 then 4 else 5)"

text \<open>
  The code point of a sequence of \<open>n\<close> octets with leading octet \<open>B\<close> and continuation
  payloads \<open>bs\<close>, when the sequence is valid UTF-8: not overlong, no surrogate, at most
  \<open>0x10FFFF\<close>.
\<close>

definition utf8_value :: "nat \<Rightarrow> nat \<Rightarrow> nat list \<Rightarrow> nat option" where
  "utf8_value n B bs =
     (let V = foldl (\<lambda>acc b. acc * 0x40 + b) (B mod (2 ^ (7 - n))) bs;
          lowest = (if n = 2 then 0x80 else if n = 3 then 0x800 else 0x10000)
      in if V < lowest \<or> 0x10FFFF < V \<or> (0xD800 \<le> V \<and> V \<le> 0xDFFF) then None
         else Some V)"

definition code_units :: "nat \<Rightarrow> jsstring" where
  "code_units V =
     (if V < 0x10000 then [code_unit V]
      else [code_unit ((V - 0x10000) div 0x400 mod 0x400 + 0xD800),
            code_unit ((V - 0x10000) mod 0x400 + 0xDC00)])"

text \<open>
  What \<open>Decode\<close> does at an escape: the code units it stands for and the rest of the
  string, or nothing when it is malformed.
\<close>

definition decode_escape :: "jsstring \<Rightarrow> (jsstring \<times> jsstring) option" where
  "decode_escape s =
     (case read_escape s of
        None \<Rightarrow> None
      | Some (B, rest) \<Rightarrow>
          if B < 0x80 then Some ([code_unit B], rest)
          else
            let n = leading_ones B
            in if n = 1 \<or> n > 4 then None
               else (case read_continuation (n - 1) rest of
                       None \<Rightarrow> None
                     | Some (bs, rest') \<Rightarrow>
                         (case utf8_value n B bs of
                            None \<Rightarrow> None
                          | Some V \<Rightarrow> Some (code_units V, rest'))))"

lemma read_escape_shorter: "read_escape s = Some (B, rest) \<Longrightarrow> length rest < length s"
  by (induction s rule: read_escape.induct) (auto split: if_splits option.splits)

lemma read_continuation_shorter:
  "read_continuation n s = Some (bs, rest) \<Longrightarrow> length rest \<le> length s"
proof (induction n arbitrary: s bs)
  case 0
  then show ?case by simp
next
  case (Suc n)
  from Suc.prems obtain B r bs' where e: "read_escape s = Some (B, r)"
    and c: "read_continuation n r = Some (bs', rest)"
    by (auto split: option.splits if_splits)
  from Suc.IH [OF c] read_escape_shorter [OF e] show ?case by simp
qed

lemma decode_escape_shorter:
  "decode_escape s = Some (u, rest) \<Longrightarrow> length rest < length s"
  unfolding decode_escape_def Let_def
  by (auto split: option.splits if_splits
      dest!: read_escape_shorter read_continuation_shorter)

text \<open>
  \<open>Decode\<close> with the empty reserved set of \<open>decodeURIComponent\<close>: a malformed escape
  raises \<open>URIError\<close>.
\<close>

function decodeURIComponent :: "jsstring \<Rightarrow> error + jsstring" where
  "decodeURIComponent [] = Inr []"
| "decodeURIComponent (c # cs) =
     (if c \<noteq> 0x25 then
        (case decodeURIComponent cs of Inl e \<Rightarrow> Inl e | Inr r \<Rightarrow> Inr (c # r))
      else
        (case decode_escape (c # cs) of
           None \<Rightarrow> Inl URIError
         | Some (u, rest) \<Rightarrow>
             (case decodeURIComponent rest of Inl e \<Rightarrow> Inl e | Inr r \<Rightarrow> Inr (u @ r))))"
  by pat_completeness auto
termination
  by (relation "measure length") (auto dest: decode_escape_shorter)

section \<open>Project\<close>

text \<open>
  The attributes \<open>_name\<close>, \<open>_state\<close>, \<open>_timeSpentInPreviousIterations\<close>,
  \<open>_currentIterationStartTime\<close> and \<open>_onChange\<close> of the class \<open>Project\<close>.
\<close>

record Project =
  p_name :: jsstring
  p_state :: jsval
  timeSpentInPreviousIterations :: number
  currentIterationStartTime :: number
  onChange :: slot

definition STOPPED :: jsval where
  "STOPPED = Str (js ''stopped'')"

definition RUNNING :: jsval where
  "RUNNING = Str (js ''running'')"

definition new_Project :: "jsstring \<Rightarrow> Project" where
  "new_Project nm =
     \<lparr> p_name = nm, p_state = STOPPED, timeSpentInPreviousIterations = Num 0,
       currentIterationStartTime = Num 0, onChange = Null \<rparr>"

definition isStopped :: "Project \<Rightarrow> bool" where
  "isStopped p = (p_state p = STOPPED)"

definition isRunning :: "Project \<Rightarrow> bool" where
  "isRunning p = (p_state p = RUNNING)"

definition setOnChange :: "slot \<Rightarrow> Project \<Rightarrow> Project" where
  "setOnChange h p = p\<lparr>onChange := h\<rparr>"

text \<open>
  Methods take the reading of the wall clock (\<open>(new Date).getTime()\<close>, an integer number
  of milliseconds, of magnitude at most \<open>8.64e15\<close> and so a double) as the parameter
  \<open>now\<close>, and the object as explicit state. A method
  returns the object after the call together with the list of handler invocations it
  made; each invocation is recorded as the project the handler sees at that moment.
  What a function stored in a slot does is not part of the classes \<open>Project\<close> and
  \<open>Projects\<close>: their model records that the handler is called, and takes it to return
  normally and to leave the projects and the list alone. The handlers that the
  application itself installs are modelled with the application, in the section on its
  initialization, where their bodies run.

  The comparisons \<open>this._state == Project.State.RUNNING\<close> are between strings or
  \<open>undefined\<close>, where \<open>==\<close> is equality.
\<close>

definition getCurrentIterationTime :: "int \<Rightarrow> Project \<Rightarrow> number" where
  "getCurrentIterationTime now p = num_sub (Num now) (currentIterationStartTime p)"

text \<open>
  \<open>getTimeSpent\<close> returns its result, the project after the call and the handler
  invocations made.
\<close>

definition getTimeSpent :: "int \<Rightarrow> Project \<Rightarrow> number \<times> Project \<times> Project list" where
  "getTimeSpent now p =
     (let result = timeSpentInPreviousIterations p;
          result = (if p_state p = RUNNING
                    then num_add result (getCurrentIterationTime now p)
                    else result)
      in (result, p, []))"

definition callOnChange :: "Project \<Rightarrow> Project list" where
  "callOnChange p = (case onChange p of Handler h \<Rightarrow> [p] | Null \<Rightarrow> [])"

definition start :: "int \<Rightarrow> Project \<Rightarrow> Project \<times> Project list" where
  "start now p =
     (if p_state p = RUNNING then (p, [])
      else
        let p1 = p\<lparr>p_state := RUNNING\<rparr>;
            p2 = p1\<lparr>currentIterationStartTime := Num now\<rparr>
        in (p2, callOnChange p2))"

definition stop :: "int \<Rightarrow> Project \<Rightarrow> Project \<times> Project list" where
  "stop now p =
     (if p_state p = STOPPED then (p, [])
      else
        let p1 = p\<lparr>p_state := STOPPED\<rparr>;
            p2 = p1\<lparr>timeSpentInPreviousIterations :=
                      num_add (timeSpentInPreviousIterations p1)
                              (getCurrentIterationTime now p1)\<rparr>;
            p3 = p2\<lparr>currentIterationStartTime := Num 0\<rparr>
        in (p3, callOnChange p3))"

definition reset :: "int \<Rightarrow> Project \<Rightarrow> Project \<times> Project list" where
  "reset now p =
     (let (p1, calls1) = stop now p;
          p2 = p1\<lparr>timeSpentInPreviousIterations := Num 0\<rparr>
      in (p2, calls1 @ callOnChange p2))"

text \<open>Calling \<open>getTimeSpent\<close> repeatedly, at the clock readings of the list.\<close>

fun getTimeSpent_times :: "int list \<Rightarrow> Project \<Rightarrow> Project \<times> Project list" where
  "getTimeSpent_times [] p = (p, [])"
| "getTimeSpent_times (now # nows) p =
     (case getTimeSpent now p of
        (_, p1, calls1) \<Rightarrow>
          (case getTimeSpent_times nows p1 of (p2, calls2) \<Rightarrow> (p2, calls1 @ calls2)))"

subsection \<open>Serialization of a project\<close>

text \<open>
  \<open>serialize\<close> only reads the project; it returns the text, or the \<open>URIError\<close> of
  \<open>encodeURIComponent\<close>.
\<close>

definition Project_serialize :: "Project \<Rightarrow> error + jsstring" where
  "Project_serialize p =
     (case encodeURIComponent (p_name p) of
        Inl e \<Rightarrow> Inl e
      | Inr encoded \<Rightarrow>
          Inr (Array_join (js ''&'')
                 [Str encoded, p_state p, Number (timeSpentInPreviousIterations p),
                  Number (currentIterationStartTime p)]))"

text \<open>
  \<open>deserialize\<close> returns the exception raised, if any, the project after the call and the
  handler invocations made. \<open>decodeURIComponent\<close> is evaluated before the first
  assignment, so its \<open>URIError\<close> leaves the project as it was.
\<close>

definition Project_deserialize ::
  "jsstring \<Rightarrow> Project \<Rightarrow> error option \<times> Project \<times> Project list" where
  "Project_deserialize serialized p =
     (let parts = String_split 0x26 serialized
      in case decodeURIComponent (ToString (Array_get parts 0)) of
           Inl e \<Rightarrow> (Some e, p, [])
         | Inr decoded \<Rightarrow>
             (let p1 = p\<lparr>p_name := decoded\<rparr>;
                  p2 = p1\<lparr>p_state := Array_get parts 1\<rparr>;
                  p3 = p2\<lparr>timeSpentInPreviousIterations := parseInt (Array_get parts 2)\<rparr>;
                  p4 = p3\<lparr>currentIterationStartTime := parseInt (Array_get parts 3)\<rparr>
              in (None, p4, [])))"

text \<open>
  The projects of the data model: a well-formed name, one of the two state tags, and
  integer times in the range where JavaScript numbers are exact integers (the
  accumulated time not negative).
\<close>

definition valid_Project :: "Project \<Rightarrow> bool" where
  "valid_Project p \<longleftrightarrow>
     isWellFormed (p_name p) \<and> (p_state p = STOPPED \<or> p_state p = RUNNING) \<and>
     (case timeSpentInPreviousIterations p of
        Num a \<Rightarrow> 0 \<le> a \<and> a \<le> 2 ^ 53 - 1 | _ \<Rightarrow> False) \<and>
     (case currentIterationStartTime p of
        Num b \<Rightarrow> - (2 ^ 53 - 1) \<le> b \<and> b \<le> 2 ^ 53 - 1 | _ \<Rightarrow> False)"

section \<open>Projects\<close>

text \<open>The attributes \<open>_projects\<close>, \<open>_onAdd\<close> and \<open>_onRemove\<close> of the class \<open>Projects\<close>.\<close>

record Projects =
  projects_array :: "Project list"
  onAdd :: slot
  onRemove :: slot

definition new_Projects :: Projects where
  "new_Projects = \<lparr> projects_array = [], onAdd = Null, onRemove = Null \<rparr>"

text \<open>
  A handler invocation made by the list: the argument passed, and the contents of
  \<open>_projects\<close> at the moment of the call.
\<close>

datatype list_call = OnAdd Project "Project list" | OnRemove int "Project list"

definition Projects_length :: "Projects \<Rightarrow> nat" where
  "Projects_length ps = length (projects_array ps)"

definition callOnAdd :: "Project \<Rightarrow> Projects \<Rightarrow> list_call list" where
  "callOnAdd project ps =
     (case onAdd ps of Handler h \<Rightarrow> [OnAdd project (projects_array ps)] | Null \<Rightarrow> [])"

definition add :: "Project \<Rightarrow> Projects \<Rightarrow> Projects \<times> list_call list" where
  "add project ps =
     (let ps1 = ps\<lparr>projects_array := projects_array ps @ [project]\<rparr>
      in (ps1, callOnAdd project ps1))"

definition callOnRemove :: "int \<Rightarrow> Projects \<Rightarrow> list_call list" where
  "callOnRemove index ps =
     (case onRemove ps of Handler h \<Rightarrow> [OnRemove index (projects_array ps)] | Null \<Rightarrow> [])"

text \<open>
  \<open>Array.prototype.splice(start, deleteCount)\<close> for integer arguments: a negative
  start counts from the end, and both arguments are clamped to the array.
\<close>

definition Array_splice :: "int \<Rightarrow> int \<Rightarrow> 'a list \<Rightarrow> 'a list" where
  "Array_splice relativeStart deleteCount xs =
     (let len = int (length xs);
          actualStart = (if relativeStart < 0 then max (len + relativeStart) 0
                         else min relativeStart len);
          actualDeleteCount = min (max deleteCount 0) (len - actualStart)
      in take (nat actualStart) xs @ drop (nat (actualStart + actualDeleteCount)) xs)"

definition Projects_remove :: "int \<Rightarrow> Projects \<Rightarrow> Projects \<times> list_call list" where
  "Projects_remove index ps =
     (let calls = callOnRemove index ps;
          ps1 = ps\<lparr>projects_array := Array_splice index 1 (projects_array ps)\<rparr>
      in (ps1, calls))"

text \<open>
  \<open>serialize\<close>: the \<open>forEach\<close> pushes the text of each project in turn; the first
  \<open>URIError\<close> ends it.
\<close>

fun serialize_each :: "Project list \<Rightarrow> error + jsstring list" where
  "serialize_each [] = Inr []"
| "serialize_each (project # rest) =
     (case Project_serialize project of
        Inl e \<Rightarrow> Inl e
      | Inr t \<Rightarrow> (case serialize_each rest of Inl e \<Rightarrow> Inl e | Inr ts \<Rightarrow> Inr (t # ts)))"

definition Projects_serialize :: "Projects \<Rightarrow> error + jsstring" where
  "Projects_serialize ps =
     (case serialize_each (projects_array ps) of
        Inl e \<Rightarrow> Inl e
      | Inr serializedProjects \<Rightarrow> Inr (Array_join (js ''|'') (map Str serializedProjects)))"

text \<open>The loop \<open>while (this._projects.length > 0) { this.remove(0); }\<close>.\<close>

function remove_all :: "Projects \<Rightarrow> Projects \<times> list_call list" where
  "remove_all ps =
     (if length (projects_array ps) > 0 then
        (case Projects_remove 0 ps of
           (ps1, calls1) \<Rightarrow>
             (case remove_all ps1 of (ps2, calls2) \<Rightarrow> (ps2, calls1 @ calls2)))
      else (ps, []))"
  by pat_completeness auto
termination
  by (relation "measure (\<lambda>ps. length (projects_array ps))")
     (auto simp: Projects_remove_def Array_splice_def Let_def)

declare remove_all.simps [simp del]

text \<open>
  The loop over the split text: each part is deserialized into a fresh project, which is
  then added. An exception leaves the loop with the list as it is by then.
\<close>

fun add_each :: "jsstring list \<Rightarrow> Projects \<Rightarrow> error option \<times> Projects \<times> list_call list" where
  "add_each [] ps = (None, ps, [])"
| "add_each (serializedProject # rest) ps =
     (case Project_deserialize serializedProject (new_Project []) of
        (Some e, _, _) \<Rightarrow> (Some e, ps, [])
      | (None, project, _) \<Rightarrow>
          (case add project ps of
             (ps1, calls1) \<Rightarrow>
               (case add_each rest ps1 of
                  (e, ps2, calls2) \<Rightarrow> (e, ps2, calls1 @ calls2))))"

definition Projects_deserialize ::
  "jsstring \<Rightarrow> Projects \<Rightarrow> error option \<times> Projects \<times> list_call list" where
  "Projects_deserialize serialized ps =
     (case remove_all ps of
        (ps1, calls1) \<Rightarrow>
          (case add_each (String_split 0x7C serialized) ps1 of
             (e, ps2, calls2) \<Rightarrow> (e, ps2, calls1 @ calls2)))"

section \<open>Project list and DOM Storage\<close>

text \<open>
  The global variables \<open>projects\<close> and \<open>lastSerializedProjectsString\<close>, and the value the
  DOM Storage holds under \<open>PROJECTS_DOM_STORAGE_KEY\<close>. \<open>None\<close> is \<open>undefined\<close>: the
  variable before its first assignment, the storage without the key. The storage is
  shared with the other instances of the application, which may change it between two
  steps of this one. (\<open>getStorage\<close> chooses between \<open>localStorage\<close> and \<open>globalStorage\<close>;
  the application does not start when there is neither.)
\<close>

record app =
  projects :: Projects
  lastSerializedProjectsString :: "jsstring option"
  storage :: "jsstring option"

definition loadSerializedProjectsString :: "app \<Rightarrow> jsstring option" where
  "loadSerializedProjectsString a = storage a"

text \<open>
  \<open>saveProjects\<close> returns the exception raised, if any, the state after the call and the
  handler invocations of the list. (\<open>loadProjects\<close> runs the handlers of the list and
  follows them below.)
\<close>

definition saveProjects :: "app \<Rightarrow> error option \<times> app \<times> list_call list" where
  "saveProjects a =
     (case Projects_serialize (projects a) of
        Inl e \<Rightarrow> (Some e, a, [])
      | Inr serializedProjectsString \<Rightarrow>
          (let a1 = a\<lparr>storage := Some serializedProjectsString\<rparr>;
               a2 = a1\<lparr>lastSerializedProjectsString := Some serializedProjectsString\<rparr>
           in (None, a2, [])))"

definition projectsHaveChangedOutsideApplication :: "app \<Rightarrow> bool" where
  "projectsHaveChangedOutsideApplication a \<longleftrightarrow>
     loadSerializedProjectsString a \<noteq> lastSerializedProjectsString a"

section \<open>View\<close>

text \<open>
  The view writes to the page, which is outside the model. What the model keeps of the
  view is where it raises: \<open>computeStartStopLinkImageUrl\<close> throws for a state that is
  neither of the two tags, and both \<open>buildProjectRow\<close> and \<open>updateProjectRow\<close> call it
  with the state of the project. Nothing else in them raises or changes a project.
\<close>

definition computeStartStopLinkImageUrl :: "jsval \<Rightarrow> error + jsstring" where
  "computeStartStopLinkImageUrl st =
     (if st = STOPPED then Inr (js ''img/start.png'')
      else if st = RUNNING then Inr (js ''img/stop.png'')
      else Inl InvalidProjectState)"

definition buildProjectRow :: "Project \<Rightarrow> error option" where
  "buildProjectRow project =
     (case computeStartStopLinkImageUrl (p_state project) of
        Inl e \<Rightarrow> Some e
      | Inr url \<Rightarrow> None)"

definition updateProjectRow :: "Project \<Rightarrow> error option" where
  "updateProjectRow project =
     (case computeStartStopLinkImageUrl (p_state project) of
        Inl e \<Rightarrow> Some e
      | Inr url \<Rightarrow> None)"

section \<open>Initialization\<close>

subsection \<open>The handlers of the application\<close>

text \<open>
  \<open>initializeProjectsEventHandlers\<close> stores a function in each slot of \<open>projects\<close>, before
  the list is loaded and before the timer starts; nothing else ever assigns these slots.
  The function in \<open>onAdd\<close> builds the row of the project added, which may throw,
  appends the row to the table, and stores in the project a function that refreshes that
  row. The function in \<open>onRemove\<close> removes a row from the table: it neither throws nor
  touches the list.

  \<open>row_updater\<close> stands for the function stored in the project;
  \<open>onAdd_handler\<close> is the body of the function in \<open>onAdd\<close>, returning the project as it has
  changed it.
\<close>

definition row_updater :: slot where
  "row_updater = Handler 0"

definition onAdd_handler :: "Project \<Rightarrow> error + Project" where
  "onAdd_handler project =
     (case buildProjectRow project of
        Some e \<Rightarrow> Inl e
      | None \<Rightarrow> Inr (setOnChange row_updater project))"

subsection \<open>The list as the application runs it\<close>

text \<open>
  \<open>projects.add\<close> in the application: \<open>add\<close> pushes the project and calls the slot; a
  function in the slot is the application's, so its body runs at that call. When it
  throws, the exception leaves \<open>add\<close> with the project already pushed; otherwise the
  project in the list is the one the handler has changed, the object being shared.
\<close>

definition app_add :: "Project \<Rightarrow> Projects \<Rightarrow> error option \<times> Projects \<times> list_call list" where
  "app_add project ps =
     (case add project ps of
        (ps1, calls) \<Rightarrow>
          (case onAdd ps of
             Null \<Rightarrow> (None, ps1, calls)
           | Handler h \<Rightarrow>
               (case onAdd_handler project of
                  Inl e \<Rightarrow> (Some e, ps1, calls)
                | Inr shown \<Rightarrow>
                    (None, ps1\<lparr>projects_array := projects_array ps @ [shown]\<rparr>, calls))))"

text \<open>
  \<open>projects.deserialize\<close> in the application. The calls of \<open>remove\<close> are those of the
  class, the function in \<open>onRemove\<close> having no effect on the list; the loop over the
  parts adds with \<open>app_add\<close>, and an exception of the handler leaves the loop.
\<close>

fun app_add_each ::
  "jsstring list \<Rightarrow> Projects \<Rightarrow> error option \<times> Projects \<times> list_call list" where
  "app_add_each [] ps = (None, ps, [])"
| "app_add_each (serializedProject # rest) ps =
     (case Project_deserialize serializedProject (new_Project []) of
        (Some e, _, _) \<Rightarrow> (Some e, ps, [])
      | (None, project, _) \<Rightarrow>
          (case app_add project ps of
             (Some e, ps1, calls1) \<Rightarrow> (Some e, ps1, calls1)
           | (None, ps1, calls1) \<Rightarrow>
               (case app_add_each rest ps1 of
                  (e, ps2, calls2) \<Rightarrow> (e, ps2, calls1 @ calls2))))"

definition app_deserialize ::
  "jsstring \<Rightarrow> Projects \<Rightarrow> error option \<times> Projects \<times> list_call list" where
  "app_deserialize serialized ps =
     (case remove_all ps of
        (ps1, calls1) \<Rightarrow>
          (case app_add_each (String_split 0x7C serialized) ps1 of
             (e, ps2, calls2) \<Rightarrow> (e, ps2, calls1 @ calls2)))"

text \<open>
  \<open>loadProjects\<close> returns the exception raised, if any, the state after the call and the
  handler invocations of the list. An exception of \<open>projects.deserialize\<close> leaves it
  before \<open>lastSerializedProjectsString\<close> is assigned.
\<close>

definition loadProjects :: "app \<Rightarrow> error option \<times> app \<times> list_call list" where
  "loadProjects a =
     (case loadSerializedProjectsString a of
        None \<Rightarrow> (None, a, [])
      | Some serializedProjectsString \<Rightarrow>
          (case app_deserialize serializedProjectsString (projects a) of
             (Some e, ps, calls) \<Rightarrow> (Some e, a\<lparr>projects := ps\<rparr>, calls)
           | (None, ps, calls) \<Rightarrow>
               (None,
                a\<lparr>projects := ps,
                  lastSerializedProjectsString := Some serializedProjectsString\<rparr>,
                calls)))"

subsection \<open>The timer\<close>

text \<open>
  The function that \<open>initializeTimer\<close> runs every ten seconds. It first refreshes the
  row of every project, \<open>projects.forEach(...)\<close> with \<open>updateProjectRow\<close>, and then
  reloads the list when the storage has changed. An exception of the first part ends
  the function before the second.
\<close>

fun refresh_rows :: "Project list \<Rightarrow> error option" where
  "refresh_rows [] = None"
| "refresh_rows (project # rest) =
     (case updateProjectRow project of Some e \<Rightarrow> Some e | None \<Rightarrow> refresh_rows rest)"

definition timer_tick :: "app \<Rightarrow> error option \<times> app \<times> list_call list" where
  "timer_tick a =
     (case refresh_rows (projects_array (projects a)) of
        Some e \<Rightarrow> (Some e, a, [])
      | None \<Rightarrow>
          if projectsHaveChangedOutsideApplication a then loadProjects a else (None, a, []))"

section \<open>What the specification says about replacing the list\<close>

text \<open>
  The decoding of a stored text: its parts between \<open>|\<close>, each deserialized into a fresh
  project, in order.
\<close>

definition decoded_projects :: "jsstring \<Rightarrow> Project list" where
  "decoded_projects serialized =
     map (\<lambda>part. fst (snd (Project_deserialize part (new_Project []))))
       (String_split 0x7C serialized)"

text \<open>A project with one of the two state tags of \<open>Project.State\<close>.\<close>

definition has_state_tag :: "Project \<Rightarrow> bool" where
  "has_state_tag p \<longleftrightarrow> p_state p = STOPPED \<or> p_state p = RUNNING"

text \<open>The decoding raises nothing: no part has a malformed escape in its name.\<close>

definition decodable :: "jsstring \<Rightarrow> bool" where
  "decodable serialized \<longleftrightarrow>
     list_all (\<lambda>part. fst (Project_deserialize part (new_Project [])) = None)
       (String_split 0x7C serialized)"

text \<open>
  \<open>onRemove\<close> for every existing project: the first project is removed each time, so the
  handler, when there is one, is called with index 0 while the list shrinks from the
  front.
\<close>

definition removal_calls :: "Projects \<Rightarrow> list_call list" where
  "removal_calls ps =
     (case onRemove ps of
        Null \<Rightarrow> []
      | Handler h \<Rightarrow>
          map (\<lambda>k. OnRemove 0 (drop k (projects_array ps))) [0..<length (projects_array ps)])"

text \<open>
  \<open>onAdd\<close> for every decoded project: the handler, when there is one, is called with each
  project in turn, the list holding the projects up to that one.
\<close>

definition addition_calls :: "Projects \<Rightarrow> Project list \<Rightarrow> list_call list" where
  "addition_calls ps decoded =
     (case onAdd ps of
        Null \<Rightarrow> []
      | Handler h \<Rightarrow> map (\<lambda>k. OnAdd (decoded ! k) (take (Suc k) decoded)) [0..<length decoded])"

text \<open>
  The decoded projects as they stand in the list of the application: each with the
  function that the \<open>onAdd\<close> handler has stored in it.
\<close>

definition shown_projects :: "Projects \<Rightarrow> Project list \<Rightarrow> Project list" where
  "shown_projects ps decoded =
     (case onAdd ps of
        Null \<Rightarrow> decoded
      | Handler h \<Rightarrow> map (setOnChange row_updater) decoded)"

text \<open>
  \<open>onAdd\<close> for every decoded project in the application: at each call the list holds the
  projects added before, already changed by the handler, and the project just pushed.
\<close>

definition app_addition_calls :: "Projects \<Rightarrow> Project list \<Rightarrow> list_call list" where
  "app_addition_calls ps decoded =
     (case onAdd ps of
        Null \<Rightarrow> []
      | Handler h \<Rightarrow>
          map (\<lambda>k. OnAdd (decoded ! k)
                    (map (setOnChange row_updater) (take k decoded) @ [decoded ! k]))
            [0..<length decoded])"

section \<open>Properties of the built-in functions\<close>

subsection \<open>Arithmetic that is exact\<close>

lemma shift_amount_small: "m < 2 ^ 53 \<Longrightarrow> shift_amount m = 0"
  by (simp add: shift_amount.simps)

lemma round_magnitude_exact: "m \<le> 2 ^ 53 \<Longrightarrow> round_magnitude m = m"
proof (cases "m < 2 ^ 53")
  case True
  then show ?thesis
    by (simp add: round_magnitude_def shift_amount_small)
next
  case False
  assume "m \<le> 2 ^ 53"
  with False have m: "m = 2 ^ 53" by simp
  have "shift_amount (2 ^ 53) = Suc 0"
    by (simp add: shift_amount.simps [of 9007199254740992] shift_amount_small)
  then show ?thesis
    by (simp add: round_magnitude_def m)
qed

text \<open>An integer of magnitude up to \<open>2 ^ 53\<close> is a double: nothing is rounded.\<close>

lemma to_number_exact: "\<bar>x\<bar> \<le> 2 ^ 53 \<Longrightarrow> to_number x = Num x"
proof -
  assume x: "\<bar>x\<bar> \<le> 2 ^ 53"
  then have le: "nat \<bar>x\<bar> \<le> 2 ^ 53"
    by (simp add: nat_le_iff)
  then have r: "round_magnitude (nat \<bar>x\<bar>) = nat \<bar>x\<bar>"
    by (rule round_magnitude_exact)
  have "(2::nat) ^ 53 < 2 ^ 1024"
    by (rule power_strict_increasing) simp_all
  with le have "\<not> 2 ^ 1024 \<le> nat \<bar>x\<bar>"
    by linarith
  then show ?thesis
    by (simp add: to_number_def r Let_def)
qed

text \<open>Beyond \<open>2 ^ 53\<close> not every integer is a double: \<open>2 ^ 53 + 1\<close> is rounded to \<open>2 ^ 53\<close>.\<close>

lemma to_number_rounds: "to_number 9007199254740993 = Num 9007199254740992"
  by (simp add: to_number_def round_magnitude_def shift_amount.simps [of 9007199254740993]
      shift_amount.simps [of 4503599627370496])

subsection \<open>Decoding an encoded string\<close>

lemma unat_code_unit: "n < 65536 \<Longrightarrow> unat (code_unit n) = n"
  by (simp add: code_unit_def unat_of_nat)

lemma code_unit_unat: "code_unit (unat c) = c"
  by (simp add: code_unit_def)

lemma hex_value_hex_char: "d < 16 \<Longrightarrow> hex_value (hex_char d) = Some d"
  by (simp add: hex_value_def hex_char_def unat_code_unit Let_def)

lemma uriUnescaped_hex_char: "d < 16 \<Longrightarrow> uriUnescaped (hex_char d)"
  by (simp add: uriUnescaped_def hex_char_def unat_code_unit Let_def)

lemma read_escape_escape_octet:
  "b < 256 \<Longrightarrow> read_escape (escape_octet b @ rest) = Some (b, rest)"
proof -
  assume "b < 256"
  then have "b div 16 < 16"
    using less_mult_imp_div_less [of b 16 16] by simp
  then show ?thesis
    by (simp add: escape_octet_def hex_value_hex_char)
qed

lemma div_add_mult: "b < m \<Longrightarrow> (k * m + b) div m = (k::nat)"
  by simp

lemma mod_add_mult: "b < m \<Longrightarrow> (k * m + b) mod m = (b::nat)"
  by simp

lemma read_continuation_escape_octet:
  assumes "b < 0x40"
  shows "read_continuation (Suc n) (escape_octet (0x80 + b) @ rest) =
     (case read_continuation n rest of
        None \<Rightarrow> None
      | Some (bs, rest') \<Rightarrow> Some (b # bs, rest'))"
proof -
  have 1: "(0x80 + b) div 0x40 = 2"
    using div_add_mult [of b 64 2] assms by simp
  have 2: "(0x80 + b) mod 0x40 = b"
    using mod_add_mult [of b 64 2] assms by simp
  have 3: "0x80 + b < 256"
    using assms by simp
  show ?thesis
    by (simp add: read_escape_escape_octet [OF 3] 1 2 split: option.split)
qed

lemma decode_escape_1:
  assumes "V < 0x80"
  shows "decode_escape (escape_octets (utf8_octets V) @ rest) = Some (code_units V, rest)"
  using assms
  by (simp add: decode_escape_def utf8_octets_def escape_octets_def read_escape_escape_octet
      code_units_def)

lemma decode_escape_2:
  assumes "0x80 \<le> V" and "V < 0x800"
  shows "decode_escape (escape_octets (utf8_octets V) @ rest) = Some (code_units V, rest)"
proof -
  let ?B = "0xC0 + V div 0x40"
  have d: "V div 0x40 < 32"
    using less_mult_imp_div_less [of V 32 64] assms by simp
  have B: "?B < 256" "\<not> ?B < 0x80" "\<not> ?B < 0xC0" "?B < 0xE0"
    using d by simp_all
  have m: "?B mod 32 = V div 0x40"
    using mod_add_mult [of "V div 64" 32 6] d by simp
  have l: "leading_ones ?B = 2"
    using B by (simp add: leading_ones_def)
  have c: "V mod 0x40 < 0x40" by simp
  have v: "V div 0x40 * 0x40 + V mod 0x40 = V" by simp
  have o: "escape_octets (utf8_octets V) @ rest =
      escape_octet ?B @ escape_octet (0x80 + V mod 0x40) @ rest"
    using assms by (simp add: utf8_octets_def escape_octets_def)
  have r: "read_continuation (Suc 0) (escape_octet (0x80 + V mod 0x40) @ rest) =
      Some ([V mod 0x40], rest)"
    unfolding read_continuation_escape_octet [OF c] by simp
  have u: "utf8_value 2 ?B [V mod 0x40] = Some V"
    using assms by (simp add: utf8_value_def m v)
  show ?thesis
    unfolding o decode_escape_def
    by (simp add: read_escape_escape_octet [OF B(1)] B(2) l r u del: read_continuation.simps)
qed


lemma decode_escape_3:
  assumes "0x800 \<le> V" and "V < 0x10000" and "\<not> (0xD800 \<le> V \<and> V \<le> 0xDFFF)"
  shows "decode_escape (escape_octets (utf8_octets V) @ rest) = Some (code_units V, rest)"
proof -
  let ?B = "0xE0 + V div 0x1000"
  let ?p1 = "V div 0x40 mod 0x40"
  let ?p2 = "V mod 0x40"
  have d: "V div 0x1000 < 16"
    using less_mult_imp_div_less [of V 16 4096] assms by simp
  have B: "?B < 256" "\<not> ?B < 0x80" "\<not> ?B < 0xC0" "\<not> ?B < 0xE0" "?B < 0xF0"
    using d by simp_all
  have m: "?B mod 16 = V div 0x1000"
    using mod_add_mult [of "V div 4096" 16 14] d by simp
  have l: "leading_ones ?B = 3"
    using B by (simp add: leading_ones_def)
  have c: "?p1 < 0x40" "?p2 < 0x40" by simp_all
  have "V div 0x1000 = V div 0x40 div 0x40"
    using div_mult2_eq [of V 64 64] by simp
  then have v: "(V div 0x1000 * 0x40 + ?p1) * 0x40 + ?p2 = V"
    by simp
  have o: "escape_octets (utf8_octets V) @ rest =
      escape_octet ?B @ escape_octet (0x80 + ?p1) @ escape_octet (0x80 + ?p2) @ rest"
    using assms by (simp add: utf8_octets_def escape_octets_def)
  have r: "read_continuation 2 (escape_octet (0x80 + ?p1) @ escape_octet (0x80 + ?p2) @ rest) =
      Some ([?p1, ?p2], rest)"
    unfolding numeral_2_eq_2 read_continuation_escape_octet [OF c(1)]
      read_continuation_escape_octet [OF c(2)] by simp
  have p: "?B mod 2 ^ (7 - 3) = V div 0x1000"
    using m by simp
  have f: "foldl (\<lambda>acc b. acc * 0x40 + b) (?B mod 2 ^ (7 - 3)) [?p1, ?p2] = V"
    unfolding p foldl.simps by (rule v)
  have u: "utf8_value 3 ?B [?p1, ?p2] = Some V"
    unfolding utf8_value_def f using assms by simp
  show ?thesis
    unfolding o decode_escape_def
    by (simp add: read_escape_escape_octet [OF B(1)] B(2) l r u del: read_continuation.simps)
qed

lemma decode_escape_4:
  assumes "0x10000 \<le> V" and "V < 0x110000"
  shows "decode_escape (escape_octets (utf8_octets V) @ rest) = Some (code_units V, rest)"
proof -
  let ?B = "0xF0 + V div 0x40000"
  let ?p1 = "V div 0x1000 mod 0x40"
  let ?p2 = "V div 0x40 mod 0x40"
  let ?p3 = "V mod 0x40"
  have d: "V div 0x40000 < 5"
    using less_mult_imp_div_less [of V 5 262144] assms by simp
  have B: "?B < 256" "\<not> ?B < 0x80" "\<not> ?B < 0xC0" "\<not> ?B < 0xE0" "\<not> ?B < 0xF0" "?B < 0xF8"
    using d by simp_all
  have m: "?B mod 8 = V div 0x40000"
    using mod_add_mult [of "V div 262144" 8 30] d by simp
  have l: "leading_ones ?B = 4"
    using B by (simp add: leading_ones_def)
  have c: "?p1 < 0x40" "?p2 < 0x40" "?p3 < 0x40" by simp_all
  have 1: "V div 0x1000 = V div 0x40 div 0x40"
    using div_mult2_eq [of V 64 64] by simp
  have 2: "V div 0x40000 = V div 0x1000 div 0x40"
    using div_mult2_eq [of V 4096 64] by simp
  have 3: "V div 0x40000 * 0x40 + ?p1 = V div 0x1000"
    unfolding 2 by simp
  have 4: "V div 0x1000 * 0x40 + ?p2 = V div 0x40"
    unfolding 1 by simp
  have v: "((V div 0x40000 * 0x40 + ?p1) * 0x40 + ?p2) * 0x40 + ?p3 = V"
    unfolding 3 4 by simp
  have o: "escape_octets (utf8_octets V) @ rest =
      escape_octet ?B @ escape_octet (0x80 + ?p1) @ escape_octet (0x80 + ?p2) @
      escape_octet (0x80 + ?p3) @ rest"
    using assms by (simp add: utf8_octets_def escape_octets_def)
  have r: "read_continuation 3
      (escape_octet (0x80 + ?p1) @ escape_octet (0x80 + ?p2) @ escape_octet (0x80 + ?p3) @ rest) =
      Some ([?p1, ?p2, ?p3], rest)"
    unfolding numeral_3_eq_3 read_continuation_escape_octet [OF c(1)]
      read_continuation_escape_octet [OF c(2)] read_continuation_escape_octet [OF c(3)] by simp
  have p: "?B mod 2 ^ (7 - 4) = V div 0x40000"
    using m by simp
  have f: "foldl (\<lambda>acc b. acc * 0x40 + b) (?B mod 2 ^ (7 - 4)) [?p1, ?p2, ?p3] = V"
    unfolding p foldl.simps by (rule v)
  have u: "utf8_value 4 ?B [?p1, ?p2, ?p3] = Some V"
    unfolding utf8_value_def f using assms by simp
  show ?thesis
    unfolding o decode_escape_def
    by (simp add: read_escape_escape_octet [OF B(1)] B(2) l r u del: read_continuation.simps)
qed

lemma decode_escape_utf8:
  assumes "V < 0x110000" and "\<not> (0xD800 \<le> V \<and> V \<le> 0xDFFF)"
  shows "decode_escape (escape_octets (utf8_octets V) @ rest) = Some (code_units V, rest)"
proof -
  consider "V < 0x80" | "0x80 \<le> V" "V < 0x800" | "0x800 \<le> V" "V < 0x10000" | "0x10000 \<le> V"
    by linarith
  then show ?thesis
    using assms
    by cases (simp_all add: decode_escape_1 decode_escape_2 decode_escape_3 decode_escape_4)
qed

lemma escape_octets_percent: "\<exists>e. escape_octets (utf8_octets V) = 0x25 # e"
  by (simp add: utf8_octets_def escape_octets_def escape_octet_def)

lemma decodeURIComponent_escape:
  assumes "V < 0x110000" and "\<not> (0xD800 \<le> V \<and> V \<le> 0xDFFF)"
  shows "decodeURIComponent (escape_octets (utf8_octets V) @ r) =
     (case decodeURIComponent r of Inl e \<Rightarrow> Inl e | Inr r' \<Rightarrow> Inr (code_units V @ r'))"
proof -
  obtain e where e: "escape_octets (utf8_octets V) = 0x25 # e"
    using escape_octets_percent by blast
  have "decode_escape (0x25 # e @ r) = Some (code_units V, r)"
    using decode_escape_utf8 [OF assms, of r] by (simp add: e)
  then show ?thesis
    by (simp add: e)
qed


lemma unat_code_unit_bound: "unat (c :: 16 word) < 65536"
  using unsigned_less [of c] by simp

lemma code_units_unat: "code_units (unat c) = [c]"
  by (simp add: code_units_def unat_code_unit_bound code_unit_unat)

lemma surrogate_pair_value_bounds:
  assumes "isLeadSurrogate hi" and "isTrailSurrogate lo"
  shows "0x10000 \<le> surrogate_pair_value hi lo" and "surrogate_pair_value hi lo < 0x110000"
proof -
  let ?h = "unat hi - 0xD800"
  let ?l = "unat lo - 0xDC00"
  have h: "?h \<le> 0x3FF" and l: "?l \<le> 0x3FF"
    using assms unfolding isLeadSurrogate_def isTrailSurrogate_def by linarith+
  show "0x10000 \<le> surrogate_pair_value hi lo"
    by (simp add: surrogate_pair_value_def)
  have "?h * 0x400 \<le> 0x3FF * 0x400"
    using h by (rule mult_le_mono1)
  then show "surrogate_pair_value hi lo < 0x110000"
    using l by (simp add: surrogate_pair_value_def)
qed

lemma code_units_surrogate_pair:
  assumes "isLeadSurrogate hi" and "isTrailSurrogate lo"
  shows "code_units (surrogate_pair_value hi lo) = [hi, lo]"
proof -
  let ?h = "unat hi - 0xD800"
  let ?l = "unat lo - 0xDC00"
  have h: "?h < 0x400" "?h + 0xD800 = unat hi" and l: "?l < 0x400" "?l + 0xDC00 = unat lo"
    using assms unfolding isLeadSurrogate_def isTrailSurrogate_def by linarith+
  have v: "surrogate_pair_value hi lo - 0x10000 = ?h * 0x400 + ?l"
    by (simp add: surrogate_pair_value_def)
  have d: "(?h * 0x400 + ?l) div 0x400 = ?h"
    using div_add_mult [OF l(1), of ?h] by simp
  have m: "(?h * 0x400 + ?l) mod 0x400 = ?l"
    using mod_add_mult [OF l(1), of ?h] by simp
  have hm: "?h mod 0x400 = ?h"
    using h(1) by simp
  have "code_units (surrogate_pair_value hi lo) =
      [code_unit (?h + 0xD800), code_unit (?l + 0xDC00)]"
    using surrogate_pair_value_bounds(1) [OF assms]
    unfolding code_units_def v d m hm by simp
  then show ?thesis
    unfolding h(2) l(2) code_unit_unat .
qed

lemma uriUnescaped_not_percent: "uriUnescaped c \<Longrightarrow> c \<noteq> 0x25"
  by (auto simp: uriUnescaped_def)

lemma decode_encode:
  "encodeURIComponent s = Inr t \<Longrightarrow> decodeURIComponent t = Inr s"
proof (induction s arbitrary: t rule: encodeURIComponent.induct)
  case 1
  then show ?case by simp
next
  case (2 c cs)
  show ?case
  proof (cases "uriUnescaped c")
    case True
    with "2.prems" obtain r where r: "encodeURIComponent cs = Inr r" and t: "t = c # r"
      by (auto split: sum.splits)
    from "2.IH"(1) [OF True r] True show ?thesis
      by (simp add: t uriUnescaped_not_percent)
  next
    case False
    note unesc = False
    from "2.prems" False have nt: "\<not> isTrailSurrogate c"
      by (auto split: if_splits)
    show ?thesis
    proof (cases "isLeadSurrogate c")
      case False
      with "2.prems" unesc nt obtain r where r: "encodeURIComponent cs = Inr r"
        and t: "t = escape_octets (utf8_octets (unat c)) @ r"
        by (auto split: sum.splits)
      have v: "unat c < 0x110000" "\<not> (0xD800 \<le> unat c \<and> unat c \<le> 0xDFFF)"
        using False nt unat_code_unit_bound [of c]
        by (auto simp: isLeadSurrogate_def isTrailSurrogate_def)
      from "2.IH"(2) [OF unesc nt False r] show ?thesis
        by (simp add: t decodeURIComponent_escape [OF v] code_units_unat)
    next
      case True
      with "2.prems" unesc nt obtain k rest r where cs: "cs = k # rest"
        and k: "isTrailSurrogate k" and r: "encodeURIComponent rest = Inr r"
        and t: "t = escape_octets (utf8_octets (surrogate_pair_value c k)) @ r"
        by (auto split: sum.splits list.splits if_splits)
      have v: "surrogate_pair_value c k < 0x110000"
        "\<not> (0xD800 \<le> surrogate_pair_value c k \<and> surrogate_pair_value c k \<le> 0xDFFF)"
        using surrogate_pair_value_bounds [OF True k] by simp_all
      from "2.IH"(3) [OF unesc nt _ cs _ r] True k show ?thesis
        by (simp add: t cs decodeURIComponent_escape [OF v] code_units_surrogate_pair)
    qed
  qed
qed

subsection \<open>The characters of an encoded string\<close>

lemma utf8_octets_bound:
  assumes "V < 0x110000" and "b \<in> set (utf8_octets V)"
  shows "b < 256"
proof -
  have 1: "V < 0x800 \<Longrightarrow> V div 0x40 < 32"
    using less_mult_imp_div_less [of V 32 64] by simp
  have 2: "V < 0x10000 \<Longrightarrow> V div 0x1000 < 16"
    using less_mult_imp_div_less [of V 16 4096] by simp
  have 3: "V div 0x40000 < 5"
    using less_mult_imp_div_less [of V 5 262144] assms(1) by simp
  have 4: "V mod 0x40 < 0x40" "V div 0x40 mod 0x40 < 0x40" "V div 0x1000 mod 0x40 < 0x40"
    by simp_all
  show ?thesis
    using assms(2) 1 2 3 4 unfolding utf8_octets_def
    by (auto split: if_splits)
qed

lemma escape_octet_chars:
  assumes "b < 256" and "c \<in> set (escape_octet b)"
  shows "uriUnescaped c \<or> c = 0x25"
proof -
  have "b div 16 < 16"
    using less_mult_imp_div_less [of b 16 16] assms(1) by simp
  moreover have "b mod 16 < 16" by simp
  ultimately show ?thesis
    using assms(2) by (auto simp: escape_octet_def uriUnescaped_hex_char)
qed

lemma escape_octets_chars:
  assumes "V < 0x110000" and "c \<in> set (escape_octets (utf8_octets V))"
  shows "uriUnescaped c \<or> c = 0x25"
  using assms utf8_octets_bound [OF assms(1)] escape_octet_chars
  unfolding escape_octets_def by auto

lemma encodeURIComponent_chars:
  "encodeURIComponent s = Inr t \<Longrightarrow> c \<in> set t \<Longrightarrow> uriUnescaped c \<or> c = 0x25"
proof (induction s arbitrary: t rule: encodeURIComponent.induct)
  case 1
  then show ?case by simp
next
  case (2 a cs)
  show ?case
  proof (cases "uriUnescaped a")
    case True
    with "2.prems" obtain r where r: "encodeURIComponent cs = Inr r" and t: "t = a # r"
      by (auto split: sum.splits)
    from "2.IH"(1) [OF True r] "2.prems"(2) True show ?thesis
      by (auto simp: t)
  next
    case False
    note unesc = False
    from "2.prems" False have nt: "\<not> isTrailSurrogate a"
      by (auto split: if_splits)
    show ?thesis
    proof (cases "isLeadSurrogate a")
      case False
      with "2.prems" unesc nt obtain r where r: "encodeURIComponent cs = Inr r"
        and t: "t = escape_octets (utf8_octets (unat a)) @ r"
        by (auto split: sum.splits)
      have v: "unat a < 0x110000"
        using unat_code_unit_bound [of a] by simp
      from "2.IH"(2) [OF unesc nt False r] "2.prems"(2) escape_octets_chars [OF v]
      show ?thesis
        by (auto simp: t)
    next
      case True
      with "2.prems" unesc nt obtain k rest r where cs: "cs = k # rest"
        and k: "isTrailSurrogate k" and r: "encodeURIComponent rest = Inr r"
        and t: "t = escape_octets (utf8_octets (surrogate_pair_value a k)) @ r"
        by (auto split: sum.splits list.splits if_splits)
      have v: "surrogate_pair_value a k < 0x110000"
        using surrogate_pair_value_bounds [OF True k] by simp
      from "2.IH"(3) [OF unesc nt _ cs _ r] True k "2.prems"(2) escape_octets_chars [OF v]
      show ?thesis
        by (auto simp: t)
    qed
  qed
qed

lemma encodeURIComponent_no_delimiter:
  assumes "encodeURIComponent s = Inr t"
  shows "0x26 \<notin> set t" and "0x7C \<notin> set t"
  using encodeURIComponent_chars [OF assms, of "0x26"] encodeURIComponent_chars [OF assms, of "0x7C"]
  by (auto simp: uriUnescaped_def)

lemma encodeURIComponent_wellformed:
  "isWellFormed s \<Longrightarrow> \<exists>t. encodeURIComponent s = Inr t"
proof (induction s rule: encodeURIComponent.induct)
  case 1
  then show ?case by simp
next
  case (2 c cs)
  show ?case
  proof (cases "uriUnescaped c")
    case True
    then have "\<not> isLeadSurrogate c"
      by (auto simp: uriUnescaped_def isLeadSurrogate_def Let_def)
    with "2.prems" have "isWellFormed cs" by simp
    from "2.IH"(1) [OF True this] True show ?thesis
      by auto
  next
    case False
    note unesc = False
    show ?thesis
    proof (cases "isLeadSurrogate c")
      case False
      with "2.prems" have nt: "\<not> isTrailSurrogate c" and w: "isWellFormed cs"
        by simp_all
      from "2.IH"(2) [OF unesc nt False w] unesc nt False show ?thesis
        by auto
    next
      case True
      then have nt: "\<not> isTrailSurrogate c"
        by (auto simp: isLeadSurrogate_def isTrailSurrogate_def)
      from "2.prems" True obtain k rest where cs: "cs = k # rest"
        and k: "isTrailSurrogate k" and w: "isWellFormed rest"
        by (auto split: list.splits)
      from "2.IH"(3) [OF unesc nt _ cs _ w] True k unesc nt show ?thesis
        by (auto simp: cs)
    qed
  qed
qed

subsection \<open>Splitting a joined string\<close>

lemma String_split_not_Nil: "String_split sep s \<noteq> []"
  by (induction s) (auto split: list.splits)

lemma String_split_no_separator: "sep \<notin> set x \<Longrightarrow> String_split sep x = [x]"
  by (induction x) auto

lemma String_split_append:
  "sep \<notin> set x \<Longrightarrow> String_split sep (x @ sep # rest) = x # String_split sep rest"
  by (induction x) (auto split: list.splits)

lemma String_split_join:
  "xs \<noteq> [] \<Longrightarrow> \<forall>x \<in> set xs. sep \<notin> set x \<Longrightarrow>
   String_split sep (join_strings [sep] xs) = xs"
  by (induction "[sep]" xs rule: join_strings.induct)
     (auto simp: String_split_no_separator String_split_append)

lemma count_list_join:
  "\<forall>x \<in> set xs. sep \<notin> set x \<Longrightarrow>
   count_list (join_strings [sep] xs) sep = length xs - 1"
  by (induction "[sep]" xs rule: join_strings.induct) auto

lemma join_no_other_separator:
  "\<forall>x \<in> set xs. c \<notin> set x \<Longrightarrow> c \<noteq> sep \<Longrightarrow> c \<notin> set (join_strings [sep] xs)"
  by (induction "[sep]" xs rule: join_strings.induct) auto

subsection \<open>Parsing a printed number\<close>

lemma unat_digit_char: "d < 10 \<Longrightarrow> unat (digit_char d) = 0x30 + d"
  by (simp add: digit_char_def unat_code_unit)

lemma decimal_digits: "c \<in> set (decimal n) \<Longrightarrow> 0x30 \<le> unat c \<and> unat c \<le> 0x39"
proof (induction n rule: decimal.induct)
  case (1 n)
  show ?case
  proof (cases "n < 10")
    case True
    then have "decimal n = [digit_char n]"
      by (simp add: decimal.simps)
    with "1.prems" True show ?thesis
      by (simp add: unat_digit_char)
  next
    case False
    then have "decimal n = decimal (n div 10) @ [digit_char (n mod 10)]"
      by (simp add: decimal.simps [of n])
    moreover have "n mod 10 < 10" by simp
    ultimately show ?thesis
      using "1.prems" "1.IH" [OF False] by (auto simp: unat_digit_char)
  qed
qed

lemma decimal_not_Nil: "decimal n \<noteq> []"
  by (subst decimal.simps) simp

lemma digit_value_digit_char: "d < 10 \<Longrightarrow> digit_value (digit_char d) = d"
  by (simp add: digit_value_def unat_digit_char Let_def)

lemma radix_value_snoc: "radix_value R (Z @ [c]) = R * radix_value R Z + digit_value c"
  by (simp add: radix_value_def)

lemma radix_value_decimal: "radix_value 10 (decimal n) = n"
proof (induction n rule: decimal.induct)
  case (1 n)
  show ?case
  proof (cases "n < 10")
    case True
    then have "decimal n = [digit_char n]"
      by (simp add: decimal.simps)
    with True show ?thesis
      by (simp add: radix_value_def digit_value_digit_char)
  next
    case False
    then have "decimal n = decimal (n div 10) @ [digit_char (n mod 10)]"
      by (simp add: decimal.simps [of n])
    moreover have "n mod 10 < 10" by simp
    ultimately show ?thesis
      using "1.IH" [OF False] by (simp add: radix_value_snoc digit_value_digit_char)
  qed
qed

lemma parseInt_string_digits:
  assumes "Z \<noteq> []" and "\<forall>c \<in> set Z. 0x30 \<le> unat c \<and> unat c \<le> 0x39"
  shows "parseInt_string Z = to_number (int (radix_value 10 Z))"
    and "parseInt_string (0x2D # Z) = to_number (- int (radix_value 10 Z))"
proof -
  obtain a rest where Z: "Z = a # rest"
    using assms(1) by (cases Z) auto
  have a: "0x30 \<le> unat a" "unat a \<le> 0x39"
    using assms(2) by (simp_all add: Z)
  have ws: "\<not> isStrWhiteSpaceChar a"
    using a by (simp add: isStrWhiteSpaceChar_def Let_def)
  have sg: "a \<noteq> 0x2B" "a \<noteq> 0x2D"
    using a by auto
  have R: "(case Z of x # y # _ \<Rightarrow> if x = 0x30 \<and> (y = 0x78 \<or> y = 0x58) then 16 else 10
                 | _ \<Rightarrow> (10::nat)) = 10"
    using assms(2) by (auto split: list.splits)
  have tw: "takeWhile (\<lambda>c. digit_value c < 10) Z = Z"
    using assms(2) by (auto simp: takeWhile_eq_all_conv digit_value_def Let_def)
  have dw: "dropWhile isStrWhiteSpaceChar Z = Z"
    using ws by (simp add: Z)
  have sign: "(case Z of c # _ \<Rightarrow> if c = 0x2D then - 1 else 1 | [] \<Rightarrow> (1::int)) = 1"
    using sg by (simp add: Z)
  have S: "(case Z of c # rest \<Rightarrow> if c = 0x2B \<or> c = 0x2D then rest else Z | [] \<Rightarrow> Z) = Z"
    using sg by (simp add: Z)
  show "parseInt_string Z = to_number (int (radix_value 10 Z))"
    unfolding parseInt_string_def Let_def dw sign S R
    using assms(1) by (simp add: tw)
  have dw': "dropWhile isStrWhiteSpaceChar (0x2D # Z) = 0x2D # Z"
    by (simp add: isStrWhiteSpaceChar_def Let_def)
  have sign': "(case 0x2D # Z of c # _ \<Rightarrow> if c = 0x2D then - 1 else 1 | [] \<Rightarrow> (1::int)) = - 1"
    by simp
  have S': "(case 0x2D # Z of c # rest \<Rightarrow> if c = 0x2B \<or> c = 0x2D then rest else 0x2D # Z
                 | [] \<Rightarrow> 0x2D # Z) = Z"
    by simp
  show "parseInt_string (0x2D # Z) = to_number (- int (radix_value 10 Z))"
    unfolding parseInt_string_def Let_def dw' sign' S' R
    using assms(1) by (simp add: tw)
qed

text \<open>Parsing the printed form of an integer of magnitude up to \<open>2 ^ 53\<close> gives it back.\<close>

lemma parseInt_NumberToString:
  assumes "\<bar>i\<bar> \<le> 2 ^ 53"
  shows "parseInt (Number (Num i)) = Num i"
proof -
  have d: "\<forall>c \<in> set (decimal n). 0x30 \<le> unat c \<and> unat c \<le> 0x39" for n
    using decimal_digits by blast
  have "parseInt (Number (Num i)) = to_number i"
    by (simp add: parseInt_def js_def parseInt_string_digits [OF decimal_not_Nil d]
        radix_value_decimal)
  then show ?thesis
    by (simp add: to_number_exact [OF assms])
qed

section \<open>Properties of the serialization\<close>

lemma NumberToString_no_delimiter:
  "0x26 \<notin> set (NumberToString n)" "0x7C \<notin> set (NumberToString n)"
proof -
  have d: "c \<in> set (decimal m) \<Longrightarrow> c \<noteq> 0x26 \<and> c \<noteq> 0x7C" for c m
    using decimal_digits [of c m] by auto
  show "0x26 \<notin> set (NumberToString n)" "0x7C \<notin> set (NumberToString n)"
    using d by (cases n; auto simp: js_def)+
qed

lemma state_tag_no_delimiter:
  assumes "v = STOPPED \<or> v = RUNNING"
  shows "0x26 \<notin> set (join_element v)" "0x7C \<notin> set (join_element v)"
  using assms by (auto simp: STOPPED_def RUNNING_def js_def)

text \<open>
  The text of a project with a proper state tag splits at \<open>&\<close> into its four fields, and
  has no \<open>|\<close>.
\<close>

lemma Project_serialize_fields:
  assumes "p_state p = STOPPED \<or> p_state p = RUNNING"
    and "Project_serialize p = Inr t"
  shows "\<exists>encoded. encodeURIComponent (p_name p) = Inr encoded \<and>
           String_split 0x26 t =
             [encoded, ToString (p_state p),
              NumberToString (timeSpentInPreviousIterations p),
              NumberToString (currentIterationStartTime p)]"
    and "count_list t 0x26 = 3" and "0x7C \<notin> set t"
proof -
  from assms(2) obtain encoded where e: "encodeURIComponent (p_name p) = Inr encoded"
    and t: "t = join_strings [0x26]
          [encoded, join_element (p_state p),
           NumberToString (timeSpentInPreviousIterations p),
           NumberToString (currentIterationStartTime p)]"
    by (auto simp: Project_serialize_def Array_join_def js_def split: sum.splits)
  let ?parts = "[encoded, join_element (p_state p),
           NumberToString (timeSpentInPreviousIterations p),
           NumberToString (currentIterationStartTime p)]"
  have amp: "\<forall>x \<in> set ?parts. 0x26 \<notin> set x"
    using encodeURIComponent_no_delimiter(1) [OF e] state_tag_no_delimiter(1) [OF assms(1)]
      NumberToString_no_delimiter(1) by simp
  have bar: "\<forall>x \<in> set ?parts. 0x7C \<notin> set x"
    using encodeURIComponent_no_delimiter(2) [OF e] state_tag_no_delimiter(2) [OF assms(1)]
      NumberToString_no_delimiter(2) by simp
  have st: "join_element (p_state p) = ToString (p_state p)"
    using assms(1) by (auto simp: STOPPED_def RUNNING_def)
  have "String_split 0x26 t = ?parts"
    unfolding t by (rule String_split_join [OF _ amp]) simp
  with e st show "\<exists>encoded. encodeURIComponent (p_name p) = Inr encoded \<and>
           String_split 0x26 t =
             [encoded, ToString (p_state p),
              NumberToString (timeSpentInPreviousIterations p),
              NumberToString (currentIterationStartTime p)]"
    by simp
  show "count_list t 0x26 = 3"
    unfolding t using count_list_join [OF amp] by simp
  show "0x7C \<notin> set t"
    unfolding t by (rule join_no_other_separator [OF bar]) simp
qed

lemma Project_serialize_valid:
  assumes "valid_Project p"
  shows "\<exists>t. Project_serialize p = Inr t"
  using encodeURIComponent_wellformed [of "p_name p"] assms
  by (auto simp: valid_Project_def Project_serialize_def)

text \<open>Deserializing the text of a valid project into any project gives its four fields.\<close>

lemma Project_deserialize_serialize:
  assumes "valid_Project p" and "Project_serialize p = Inr t"
  shows "Project_deserialize t q =
           (None,
            q\<lparr>p_name := p_name p, p_state := p_state p,
              timeSpentInPreviousIterations := timeSpentInPreviousIterations p,
              currentIterationStartTime := currentIterationStartTime p\<rparr>,
            [])"
proof -
  have st: "p_state p = STOPPED \<or> p_state p = RUNNING"
    using assms(1) by (simp add: valid_Project_def)
  from assms(1) obtain a b where a: "timeSpentInPreviousIterations p = Num a"
    and b: "currentIterationStartTime p = Num b"
    by (auto simp: valid_Project_def split: number.splits)
  from Project_serialize_fields(1) [OF st assms(2)] obtain encoded
    where e: "encodeURIComponent (p_name p) = Inr encoded"
      and s: "String_split 0x26 t =
             [encoded, ToString (p_state p), NumberToString (Num a), NumberToString (Num b)]"
    by (auto simp: a b)
  have sv: "Str (ToString (p_state p)) = p_state p"
    using st by (auto simp: STOPPED_def RUNNING_def)
  have ab: "\<bar>a\<bar> \<le> 2 ^ 53" "\<bar>b\<bar> \<le> 2 ^ 53"
    using assms(1) by (auto simp: valid_Project_def a b)
  have n: "parseInt (Str (NumberToString (Num i))) = Num i" if "\<bar>i\<bar> \<le> 2 ^ 53" for i
    using parseInt_NumberToString [OF that] by (simp add: parseInt_def)
  show ?thesis
    unfolding Project_deserialize_def s Let_def
    by (simp add: Array_get_def decode_encode [OF e] sv n [OF ab(1)] n [OF ab(2)] a b
        del: NumberToString.simps)
qed

subsection \<open>The loops of \<open>Projects.deserialize\<close>\<close>

lemma Projects_remove_first:
  assumes "projects_array ps \<noteq> []"
  shows "Projects_remove 0 ps =
           (ps\<lparr>projects_array := tl (projects_array ps)\<rparr>, callOnRemove 0 ps)"
  using assms
  by (cases "projects_array ps") (simp_all add: Projects_remove_def Array_splice_def Let_def)

lemma remove_all_result:
  "remove_all ps =
     (ps\<lparr>projects_array := []\<rparr>,
      case onRemove ps of
        Null \<Rightarrow> []
      | Handler h \<Rightarrow>
          map (\<lambda>k. OnRemove 0 (drop k (projects_array ps))) [0..<length (projects_array ps)])"
proof (induction ps rule: remove_all.induct)
  case (1 ps)
  show ?case
  proof (cases "projects_array ps")
    case Nil
    then show ?thesis
      by (simp add: remove_all.simps [of ps] split: slot.split)
  next
    case (Cons x xs)
    let ?ps1 = "ps\<lparr>projects_array := xs\<rparr>"
    have r: "Projects_remove 0 ps = (?ps1, callOnRemove 0 ps)"
      using Projects_remove_first [of ps] Cons by simp
    have "remove_all ?ps1 =
        (?ps1\<lparr>projects_array := []\<rparr>,
         case onRemove ?ps1 of
           Null \<Rightarrow> []
         | Handler h \<Rightarrow>
             map (\<lambda>k. OnRemove 0 (drop k (projects_array ?ps1))) [0..<length (projects_array ?ps1)])"
      using "1.IH" [of ?ps1 "callOnRemove 0 ps"] Cons r by simp
    then show ?thesis
      using Cons r
      by (simp add: remove_all.simps [of ps] callOnRemove_def map_upt_Suc
          del: upt_Suc split: slot.split)
  qed
qed

lemma add_each_result:
  assumes "\<forall>part \<in> set parts. fst (Project_deserialize part (new_Project [])) = None"
  shows "add_each parts ps =
     (None,
      ps\<lparr>projects_array := projects_array ps @
          map (\<lambda>part. fst (snd (Project_deserialize part (new_Project [])))) parts\<rparr>,
      case onAdd ps of
        Null \<Rightarrow> []
      | Handler h \<Rightarrow>
          map (\<lambda>k. OnAdd (fst (snd (Project_deserialize (parts ! k) (new_Project []))))
                    (projects_array ps @
                     take (Suc k)
                       (map (\<lambda>part. fst (snd (Project_deserialize part (new_Project [])))) parts)))
              [0..<length parts])"
  using assms
proof (induction parts arbitrary: ps)
  case Nil
  then show ?case by (simp split: slot.split)
next
  case (Cons part parts)
  obtain d where d: "Project_deserialize part (new_Project []) = (None, d, [])"
    using Cons.prems by (auto simp: Project_deserialize_def Let_def split: sum.splits)
  let ?ps1 = "ps\<lparr>projects_array := projects_array ps @ [d]\<rparr>"
  have a: "add d ps = (?ps1, callOnAdd d ?ps1)"
    by (simp add: add_def Let_def)
  have IH: "add_each parts ?ps1 =
     (None,
      ?ps1\<lparr>projects_array := projects_array ?ps1 @
          map (\<lambda>part. fst (snd (Project_deserialize part (new_Project [])))) parts\<rparr>,
      case onAdd ?ps1 of
        Null \<Rightarrow> []
      | Handler h \<Rightarrow>
          map (\<lambda>k. OnAdd (fst (snd (Project_deserialize (parts ! k) (new_Project []))))
                    (projects_array ?ps1 @
                     take (Suc k)
                       (map (\<lambda>part. fst (snd (Project_deserialize part (new_Project [])))) parts)))
              [0..<length parts])"
    using Cons.IH [of ?ps1] Cons.prems by simp
  show ?case
    by (simp add: d a IH callOnAdd_def map_upt_Suc del: upt_Suc split: slot.split)
qed

lemma Projects_deserialize_result:
  assumes "decodable serialized"
  shows "Projects_deserialize serialized ps =
     (None, ps\<lparr>projects_array := decoded_projects serialized\<rparr>,
      removal_calls ps @ addition_calls ps (decoded_projects serialized))"
proof -
  let ?parts = "String_split 0x7C serialized"
  let ?ps1 = "ps\<lparr>projects_array := []\<rparr>"
  have ok: "\<forall>part \<in> set ?parts. fst (Project_deserialize part (new_Project [])) = None"
    using assms by (simp add: decodable_def list_all_iff)
  have a: "add_each ?parts ?ps1 =
      (None, ps\<lparr>projects_array := decoded_projects serialized\<rparr>,
       addition_calls ps (decoded_projects serialized))"
    unfolding add_each_result [OF ok, of ?ps1]
    by (simp add: decoded_projects_def addition_calls_def split: slot.split cong: map_cong)
  show ?thesis
    unfolding Projects_deserialize_def remove_all_result [of ps]
    by (simp add: a removal_calls_def)
qed

lemma serialize_each_length: "serialize_each ps = Inr ts \<Longrightarrow> length ts = length ps"
  by (induction ps arbitrary: ts) (auto split: sum.splits)

lemma serialize_each_nth:
  "serialize_each ps = Inr ts \<Longrightarrow> i < length ps \<Longrightarrow> Project_serialize (ps ! i) = Inr (ts ! i)"
proof (induction ps arbitrary: ts i)
  case Nil
  then show ?case by simp
next
  case (Cons p ps)
  then show ?case
    by (cases i) (auto split: sum.splits)
qed

lemma serialize_each_valid:
  "\<forall>p \<in> set ps. valid_Project p \<Longrightarrow> \<exists>ts. serialize_each ps = Inr ts"
proof (induction ps)
  case Nil
  then show ?case by simp
next
  case (Cons p ps)
  then obtain t ts where "Project_serialize p = Inr t" "serialize_each ps = Inr ts"
    using Project_serialize_valid [of p] by auto
  then show ?case by simp
qed

lemma serialize_each_no_bar:
  assumes "\<forall>p \<in> set ps. p_state p = STOPPED \<or> p_state p = RUNNING"
    and "serialize_each ps = Inr ts"
  shows "\<forall>t \<in> set ts. 0x7C \<notin> set t"
proof
  fix t assume "t \<in> set ts"
  then obtain i where i: "i < length ts" "ts ! i = t"
    by (auto simp: in_set_conv_nth)
  then have l: "i < length ps"
    using serialize_each_length [OF assms(2)] by simp
  then have "p_state (ps ! i) = STOPPED \<or> p_state (ps ! i) = RUNNING"
    using assms(1) by simp
  from Project_serialize_fields(3) [OF this serialize_each_nth [OF assms(2) l]] i
  show "0x7C \<notin> set t" by simp
qed

text \<open>
  Deserializing the text of a list of valid projects that is not empty gives the same
  projects in the same order, with empty \<open>onChange\<close> slots.
\<close>

lemma Projects_deserialize_serialize:
  assumes "\<forall>p \<in> set (projects_array ps). valid_Project p" and "projects_array ps \<noteq> []"
  shows "\<exists>t. Projects_serialize ps = Inr t \<and> decodable t \<and>
           decoded_projects t = map (\<lambda>p. p\<lparr>onChange := Null\<rparr>) (projects_array ps)"
proof -
  obtain ts where ts: "serialize_each (projects_array ps) = Inr ts"
    using serialize_each_valid [OF assms(1)] by blast
  let ?t = "join_strings [0x7C] ts"
  have t: "Projects_serialize ps = Inr ?t"
    by (simp add: Projects_serialize_def ts Array_join_def js_def comp_def)
  have st: "\<forall>p \<in> set (projects_array ps). p_state p = STOPPED \<or> p_state p = RUNNING"
    using assms(1) by (simp add: valid_Project_def)
  have ne: "ts \<noteq> []"
    using serialize_each_length [OF ts] assms(2) by auto
  have sp: "String_split 0x7C ?t = ts"
    by (rule String_split_join [OF ne serialize_each_no_bar [OF st ts]])
  have each: "Project_deserialize (ts ! i) (new_Project []) =
      (None, (projects_array ps ! i)\<lparr>onChange := Null\<rparr>, [])" if "i < length ts" for i
  proof -
    have i: "i < length (projects_array ps)"
      using that serialize_each_length [OF ts] by simp
    then have v: "valid_Project (projects_array ps ! i)"
      using assms(1) by simp
    show ?thesis
      unfolding Project_deserialize_serialize [OF v serialize_each_nth [OF ts i]]
      by (simp add: new_Project_def)
  qed
  have "decodable ?t"
    unfolding decodable_def sp list_all_iff using each by (auto simp: in_set_conv_nth)
  moreover have "decoded_projects ?t = map (\<lambda>p. p\<lparr>onChange := Null\<rparr>) (projects_array ps)"
    unfolding decoded_projects_def sp
    using each serialize_each_length [OF ts] by (auto intro!: nth_equalityI)
  ultimately show ?thesis
    using t by blast
qed

text \<open>
  The round trip on the objects: the text of a list \<open>ps\<close> of valid projects that is not
  empty, deserialized into any list object \<open>qs\<close>, leaves in \<open>qs\<close> the projects of \<open>ps\<close>.
\<close>

lemma Projects_round_trip:
  assumes "\<forall>p \<in> set (projects_array ps). valid_Project p" and "projects_array ps \<noteq> []"
  shows "\<exists>t. Projects_serialize ps = Inr t \<and>
           fst (Projects_deserialize t qs) = None \<and>
           projects_array (fst (snd (Projects_deserialize t qs))) =
             map (\<lambda>p. p\<lparr>onChange := Null\<rparr>) (projects_array ps)"
proof -
  from Projects_deserialize_serialize [OF assms] obtain t
    where t: "Projects_serialize ps = Inr t" and d: "decodable t"
      and e: "decoded_projects t = map (\<lambda>p. p\<lparr>onChange := Null\<rparr>) (projects_array ps)"
    by blast
  show ?thesis
    using t e by (auto simp: Projects_deserialize_result [OF d])
qed

section \<open>Properties of a project\<close>

lemma STOPPED_neq_RUNNING: "STOPPED \<noteq> RUNNING"
  by (simp add: STOPPED_def RUNNING_def js_def)

text \<open>
  C5: \<open>getTimeSpent\<close> never changes a stored attribute of the project. After any number
  of calls, at any clock readings, the project is the one before the calls (name, state,
  both time attributes and the \<open>onChange\<close> slot), and no handler has been called.
\<close>

theorem getTimeSpent_changes_nothing: "getTimeSpent_times nows p = (p, [])"
  by (induction nows) (simp_all add: getTimeSpent_def Let_def)

text \<open>
  C8: for a stopped project \<open>getTimeSpent\<close> returns \<open>_timeSpentInPreviousIterations\<close>
  itself, at every reading of the clock.
\<close>

theorem getTimeSpent_stopped:
  "p_state p = STOPPED \<Longrightarrow> fst (getTimeSpent now p) = timeSpentInPreviousIterations p"
  by (simp add: getTimeSpent_def STOPPED_neq_RUNNING)

theorem getTimeSpent_stopped_witness:
  "p_state (new_Project (js ''Alpha'')) = STOPPED \<and>
   fst (getTimeSpent 1500 (new_Project (js ''Alpha''))) =
     timeSpentInPreviousIterations (new_Project (js ''Alpha''))"
  using getTimeSpent_stopped [of "new_Project (js ''Alpha'')" 1500]
  by (simp add: new_Project_def)

text \<open>
  C6, amended: a stopped project whose accumulated time is the integer \<open>a\<close> is started
  at the clock reading \<open>t1\<close> and stopped at \<open>t2\<close>, where the elapsed time \<open>t2 - t1\<close> and the
  sum \<open>a + (t2 - t1)\<close> have magnitudes up to \<open>2 ^ 53\<close>, so that the subtraction and the
  addition of the doubles are exact. Afterwards the project is stopped, its iteration
  start is 0, and its accumulated time is \<open>a + (t2 - t1)\<close>: it has grown by the time
  elapsed between the two calls, hence by at least that time.
\<close>

theorem start_then_stop:
  assumes "p_state p = STOPPED" and "timeSpentInPreviousIterations p = Num a"
    and "\<bar>t2 - t1\<bar> \<le> 2 ^ 53" and "\<bar>a + (t2 - t1)\<bar> \<le> 2 ^ 53"
  shows "\<exists>a'. currentIterationStartTime (fst (stop t2 (fst (start t1 p)))) = Num 0 \<and>
              p_state (fst (stop t2 (fst (start t1 p)))) = STOPPED \<and>
              timeSpentInPreviousIterations (fst (stop t2 (fst (start t1 p)))) = Num a' \<and>
              a' = a + (t2 - t1) \<and> t2 - t1 \<le> a' - a"
  using assms(1,2) STOPPED_neq_RUNNING
  by (simp add: start_def stop_def Let_def getCurrentIterationTime_def
      to_number_exact [OF assms(3)] to_number_exact [OF assms(4)])

theorem start_then_stop_witness:
  "p_state (new_Project (js ''Alpha'')) = STOPPED \<and>
   timeSpentInPreviousIterations (new_Project (js ''Alpha'')) = Num 0 \<and>
   \<bar>2500 - 1000\<bar> \<le> (2 ^ 53 :: int) \<and> \<bar>0 + (2500 - 1000)\<bar> \<le> (2 ^ 53 :: int) \<and>
   (\<exists>a'. currentIterationStartTime
            (fst (stop 2500 (fst (start 1000 (new_Project (js ''Alpha'')))))) = Num 0 \<and>
         p_state (fst (stop 2500 (fst (start 1000 (new_Project (js ''Alpha'')))))) = STOPPED \<and>
         timeSpentInPreviousIterations
            (fst (stop 2500 (fst (start 1000 (new_Project (js ''Alpha'')))))) = Num a' \<and>
         a' = 0 + (2500 - 1000) \<and> 2500 - 1000 \<le> a' - 0)"
proof -
  have h1: "p_state (new_Project (js ''Alpha'')) = STOPPED"
    by (simp add: new_Project_def)
  have h2: "timeSpentInPreviousIterations (new_Project (js ''Alpha'')) = Num 0"
    by (simp add: new_Project_def)
  have h3: "\<bar>2500 - 1000\<bar> \<le> (2 ^ 53 :: int)"
    by simp
  have h4: "\<bar>0 + (2500 - 1000)\<bar> \<le> (2 ^ 53 :: int)"
    by simp
  from start_then_stop [OF h1 h2 h3 h4] h1 h2 h3 h4 show ?thesis
    by blast
qed

text \<open>
  Without the bound the claim fails. A stopped project with the accumulated time
  \<open>2 ^ 53 - 1\<close>, started at 1000 and stopped at 1002: the sum \<open>2 ^ 53 + 1\<close> is not a
  double and is rounded to \<open>2 ^ 53\<close>, so the accumulated time has grown by 1 where 2
  milliseconds have elapsed.
\<close>

theorem start_then_stop_counterexample:
  "p_state \<lparr> p_name = js ''Alpha'', p_state = STOPPED,
             timeSpentInPreviousIterations = Num 9007199254740991,
             currentIterationStartTime = Num 0, onChange = Null \<rparr> = STOPPED \<and>
   timeSpentInPreviousIterations
     (fst (stop 1002 (fst (start 1000
        \<lparr> p_name = js ''Alpha'', p_state = STOPPED,
          timeSpentInPreviousIterations = Num 9007199254740991,
          currentIterationStartTime = Num 0, onChange = Null \<rparr>)))) = Num 9007199254740992 \<and>
   9007199254740992 - 9007199254740991 < (1002 - 1000 :: int)"
  using STOPPED_neq_RUNNING
  by (simp add: start_def stop_def Let_def getCurrentIterationTime_def to_number_exact
      to_number_rounds)

text \<open>
  C7: \<open>reset\<close> on a running project leaves it stopped with accumulated time 0, and goes
  through \<open>_callOnChange\<close> twice. An installed handler is therefore called exactly twice:
  first from the implicit \<open>stop\<close>, when the project is stopped and the time of the last
  iteration has been added, then after the time has been set to 0. (With no handler in
  the slot there is nothing to call.)
\<close>

theorem reset_running:
  assumes "p_state p = RUNNING"
  shows "timeSpentInPreviousIterations (fst (reset now p)) = Num 0 \<and>
         p_state (fst (reset now p)) = STOPPED \<and>
         snd (reset now p) =
           (case onChange p of
              Null \<Rightarrow> []
            | Handler h \<Rightarrow>
                [(fst (reset now p))\<lparr>timeSpentInPreviousIterations :=
                    num_add (timeSpentInPreviousIterations p)
                            (num_sub (Num now) (currentIterationStartTime p))\<rparr>,
                 fst (reset now p)])"
  using assms STOPPED_neq_RUNNING
  by (simp add: reset_def stop_def Let_def getCurrentIterationTime_def callOnChange_def
           split: slot.splits)

theorem reset_running_witness:
  "p_state (fst (start 1000 (setOnChange (Handler 7) (new_Project (js ''Alpha''))))) = RUNNING \<and>
   timeSpentInPreviousIterations
     (fst (reset 2500 (fst (start 1000 (setOnChange (Handler 7) (new_Project (js ''Alpha''))))))) = Num 0 \<and>
   p_state
     (fst (reset 2500 (fst (start 1000 (setOnChange (Handler 7) (new_Project (js ''Alpha''))))))) = STOPPED \<and>
   length
     (snd (reset 2500 (fst (start 1000 (setOnChange (Handler 7) (new_Project (js ''Alpha''))))))) = 2"
proof -
  let ?p = "fst (start 1000 (setOnChange (Handler 7) (new_Project (js ''Alpha''))))"
  have h: "p_state ?p = RUNNING"
    using STOPPED_neq_RUNNING by (simp add: start_def new_Project_def setOnChange_def Let_def)
  have s: "onChange ?p = Handler 7"
    using STOPPED_neq_RUNNING by (simp add: start_def new_Project_def setOnChange_def Let_def)
  from reset_running [OF h, of 2500] h s show ?thesis
    by simp
qed

section \<open>Properties of the project list\<close>

lemma parseInt_Undefined: "parseInt Undefined = NaN"
  by (simp add: parseInt_def parseInt_string_def js_def isStrWhiteSpaceChar_def
      digit_value_def Let_def)

text \<open>
  \<open>remove\<close> with an index inside the list: the handler, when there is one, is called with
  the index while the project is still in the list; then the project at the index is
  gone, the list is one shorter, the projects before the index stay and those after it
  move down by one.
\<close>

lemma remove_in_bounds:
  assumes "0 \<le> index" and "index < int (length (projects_array ps))"
  shows "Projects_remove index ps =
           (ps\<lparr>projects_array :=
                 take (nat index) (projects_array ps) @
                 drop (Suc (nat index)) (projects_array ps)\<rparr>,
            callOnRemove index ps)"
  using assms
  by (simp add: Projects_remove_def Array_splice_def Let_def min_def max_def nat_add_distrib)

lemma remove_in_bounds_shift:
  assumes "0 \<le> index" and "index < int (length (projects_array ps))"
  shows "length (projects_array (fst (Projects_remove index ps))) =
           length (projects_array ps) - 1"
    and "j < nat index \<Longrightarrow>
           projects_array (fst (Projects_remove index ps)) ! j = projects_array ps ! j"
    and "nat index \<le> j \<Longrightarrow> j < length (projects_array ps) - 1 \<Longrightarrow>
           projects_array (fst (Projects_remove index ps)) ! j = projects_array ps ! Suc j"
  using assms
  by (auto simp: remove_in_bounds nth_append min_def)

text \<open>
  \<open>remove\<close> with an index at or beyond the end leaves the list alone, but has called the
  handler before.
\<close>

lemma remove_beyond_end:
  assumes "int (length (projects_array ps)) \<le> index"
  shows "Projects_remove index ps = (ps, callOnRemove index ps)"
  using assms
  by (simp add: Projects_remove_def Array_splice_def Let_def min_def max_def)

text \<open>
  \<open>remove\<close> with a negative index counts from the end, as \<open>splice\<close> does, and removes a
  project of any list that is not empty.
\<close>

lemma remove_negative:
  assumes "index < 0" and "projects_array ps \<noteq> []"
  shows "length (projects_array (fst (Projects_remove index ps))) =
           length (projects_array ps) - 1"
    and "snd (Projects_remove index ps) = callOnRemove index ps"
  using assms
  by (auto simp: Projects_remove_def Array_splice_def Let_def min_def max_def)

text \<open>
  C2: the source calls \<open>_callOnRemove(index)\<close> before it looks at the index. With a handler
  installed and the projects \<open>a\<close> and \<open>b\<close> in the list, \<open>remove(2)\<close> leaves the list
  unchanged but calls the handler with 2, and \<open>remove(-1)\<close> calls the handler with -1
  and removes \<open>b\<close>. Neither is the silent no-op of the claim and of the comment above
  \<open>remove\<close> ("Does not do anything if the index is out of bounds").
\<close>

theorem remove_out_of_bounds:
  "Projects_remove 2
     \<lparr> projects_array = [new_Project (js ''a''), new_Project (js ''b'')],
       onAdd = Null, onRemove = Handler 0 \<rparr> =
     (\<lparr> projects_array = [new_Project (js ''a''), new_Project (js ''b'')],
        onAdd = Null, onRemove = Handler 0 \<rparr>,
      [OnRemove 2 [new_Project (js ''a''), new_Project (js ''b'')]]) \<and>
   Projects_remove (- 1)
     \<lparr> projects_array = [new_Project (js ''a''), new_Project (js ''b'')],
       onAdd = Null, onRemove = Handler 0 \<rparr> =
     (\<lparr> projects_array = [new_Project (js ''a'')],
        onAdd = Null, onRemove = Handler 0 \<rparr>,
      [OnRemove (- 1) [new_Project (js ''a''), new_Project (js ''b'')]])"
  by (simp add: Projects_remove_def callOnRemove_def Array_splice_def Let_def)

text \<open>
  C1: the empty list is serialized as the empty string, but deserializing the empty
  string, into any list object, gives a list of one project: \<open>"".split("|")\<close> is
  \<open>[""]\<close>, and the loop deserializes that one empty part into a project with the empty
  name, the state \<open>undefined\<close> and the times \<open>NaN\<close>.
\<close>

theorem empty_string_decodes_to_one_project:
  "Projects_serialize (ps\<lparr>projects_array := []\<rparr>) = Inr [] \<and>
   fst (Projects_deserialize [] ps) = None \<and>
   projects_array (fst (snd (Projects_deserialize [] ps))) =
     [\<lparr> p_name = [], p_state = Undefined, timeSpentInPreviousIterations = NaN,
        currentIterationStartTime = NaN, onChange = Null \<rparr>]"
proof -
  have p: "Project_deserialize [] (new_Project []) =
      (None,
       \<lparr> p_name = [], p_state = Undefined, timeSpentInPreviousIterations = NaN,
         currentIterationStartTime = NaN, onChange = Null \<rparr>,
       [])"
    by (simp add: Project_deserialize_def Array_get_def parseInt_Undefined new_Project_def)
  have d: "decodable []"
    by (simp add: decodable_def p)
  have e: "decoded_projects [] =
      [\<lparr> p_name = [], p_state = Undefined, timeSpentInPreviousIterations = NaN,
         currentIterationStartTime = NaN, onChange = Null \<rparr>]"
    by (simp add: decoded_projects_def p)
  show ?thesis
    by (simp add: Projects_deserialize_result [OF d] e Projects_serialize_def Array_join_def)
qed

text \<open>
  C3: serializing the empty list and deserializing the result does not give the list
  back: the list had no project and has one afterwards. (For a list that is not empty
  the round trip holds, \<open>Projects_deserialize_serialize\<close>, and so it does for a single
  project, \<open>Project_deserialize_serialize\<close>.)
\<close>

theorem empty_list_round_trip:
  "(case Projects_serialize new_Projects of
      Inl e \<Rightarrow> False
    | Inr t \<Rightarrow>
        length (projects_array new_Projects) = 0 \<and>
        length (projects_array (fst (snd (Projects_deserialize t new_Projects)))) = 1)"
  by (simp add: Projects_serialize_def new_Projects_def Array_join_def Projects_deserialize_def
      remove_all.simps Project_deserialize_def Array_get_def add_def
      callOnAdd_def Let_def)

section \<open>Properties of deserialization and of the synchronization\<close>


lemma parseInt_digit:
  "d < 10 \<Longrightarrow> parseInt (Str [digit_char d]) = Num (int d)"
proof -
  assume d: "d < 10"
  have "parseInt_string [digit_char d] = to_number (int (radix_value 10 [digit_char d]))"
    using d by (intro parseInt_string_digits(1)) (simp_all add: unat_digit_char)
  moreover have "to_number (int d) = Num (int d)"
    using d by (intro to_number_exact) simp
  ultimately show ?thesis
    by (simp add: parseInt_def radix_value_def digit_value_digit_char d)
qed

lemma js_digits: "js ''5'' = [digit_char 5]" "js ''3'' = [digit_char 3]"
  by (simp_all add: js_def digit_char_def code_unit_def)

lemma decode_example: "decodeURIComponent (js ''a%26b'') = Inr (js ''a&b'')"
  by (simp add: js_def decode_escape_def hex_value_def code_unit_def)

lemma split_example:
  "String_split 0x26 (js ''a%26b&running&5&3'') = [js ''a%26b'', js ''running'', js ''5'', js ''3'']"
  by (simp add: js_def)



text \<open>The other branch: a malformed escape raises \<open>URIError\<close> and changes nothing.\<close>

lemma Project_deserialize_malformed:
  "Project_deserialize (js ''%&running&5&3'') p = (Some URIError, p, [])"
  by (simp add: Project_deserialize_def js_def Array_get_def decode_escape_def)

text \<open>
  C10: when every project of a list has one of the two state tags, the text of each
  project has no \<open>|\<close> and exactly three \<open>&\<close>, and splits at \<open>&\<close> into the encoded name,
  the state tag and the two printed times: \<open>encodeURIComponent\<close> has escaped every \<open>&\<close>
  and \<open>|\<close> of the name, and the other fields have none. Hence the text of a list that is
  not empty splits at \<open>|\<close> into exactly the texts of its projects. (The times need not
  even be integers: \<open>NaN\<close> prints without a delimiter too.)
\<close>

theorem serialized_text_delimiters:
  assumes "\<forall>p \<in> set (projects_array ps). p_state p = STOPPED \<or> p_state p = RUNNING"
    and "Projects_serialize ps = Inr serialized"
  shows "\<exists>ts. serialize_each (projects_array ps) = Inr ts \<and>
           length ts = length (projects_array ps) \<and>
           (\<forall>i < length ts.
              0x7C \<notin> set (ts ! i) \<and> count_list (ts ! i) 0x26 = 3 \<and>
              (\<exists>encoded.
                 encodeURIComponent (p_name (projects_array ps ! i)) = Inr encoded \<and>
                 String_split 0x26 (ts ! i) =
                   [encoded, ToString (p_state (projects_array ps ! i)),
                    NumberToString (timeSpentInPreviousIterations (projects_array ps ! i)),
                    NumberToString (currentIterationStartTime (projects_array ps ! i))])) \<and>
           (projects_array ps \<noteq> [] \<longrightarrow> String_split 0x7C serialized = ts)"
proof -
  from assms(2) obtain ts where ts: "serialize_each (projects_array ps) = Inr ts"
    and tx: "serialized = join_strings [0x7C] ts"
    by (auto simp: Projects_serialize_def Array_join_def js_def comp_def split: sum.splits)
  have len: "length ts = length (projects_array ps)"
    by (rule serialize_each_length [OF ts])
  have each: "0x7C \<notin> set (ts ! i) \<and> count_list (ts ! i) 0x26 = 3 \<and>
      (\<exists>encoded.
         encodeURIComponent (p_name (projects_array ps ! i)) = Inr encoded \<and>
         String_split 0x26 (ts ! i) =
           [encoded, ToString (p_state (projects_array ps ! i)),
            NumberToString (timeSpentInPreviousIterations (projects_array ps ! i)),
            NumberToString (currentIterationStartTime (projects_array ps ! i))])"
    if "i < length ts" for i
  proof -
    have i: "i < length (projects_array ps)"
      using that len by simp
    then have st: "p_state (projects_array ps ! i) = STOPPED \<or>
        p_state (projects_array ps ! i) = RUNNING"
      using assms(1) by simp
    note s = serialize_each_nth [OF ts i]
    from Project_serialize_fields [OF st s] show ?thesis
      by blast
  qed
  have "String_split 0x7C serialized = ts" if "projects_array ps \<noteq> []"
  proof -
    have "ts \<noteq> []"
      using that len by auto
    then show ?thesis
      unfolding tx by (rule String_split_join [OF _ serialize_each_no_bar [OF assms(1) ts]])
  qed
  with ts len each show ?thesis
    by blast
qed

lemma encode_example: "encodeURIComponent (js ''a&b|c'') = Inr (js ''a%26b%7Cc'')"
  by (simp add: js_def uriUnescaped_def isTrailSurrogate_def isLeadSurrogate_def Let_def
      utf8_octets_def escape_octets_def escape_octet_def hex_char_def code_unit_def)

lemma decimal_examples: "decimal 5 = js ''5''" "decimal 3 = js ''3''"
  by (simp_all add: decimal.simps js_def digit_char_def code_unit_def)

theorem serialized_text_delimiters_witness:
  "p_state \<lparr> p_name = js ''a&b|c'', p_state = RUNNING, timeSpentInPreviousIterations = Num 5,
             currentIterationStartTime = Num 3, onChange = Null \<rparr> = RUNNING \<and>
   Projects_serialize
     \<lparr> projects_array =
         [\<lparr> p_name = js ''a&b|c'', p_state = RUNNING, timeSpentInPreviousIterations = Num 5,
            currentIterationStartTime = Num 3, onChange = Null \<rparr>],
       onAdd = Null, onRemove = Null \<rparr> = Inr (js ''a%26b%7Cc&running&5&3'') \<and>
   0x7C \<notin> set (js ''a%26b%7Cc&running&5&3'') \<and>
   count_list (js ''a%26b%7Cc&running&5&3'') 0x26 = 3 \<and>
   String_split 0x26 (js ''a%26b%7Cc&running&5&3'') =
     [js ''a%26b%7Cc'', js ''running'', js ''5'', js ''3''] \<and>
   String_split 0x7C (js ''a%26b%7Cc&running&5&3'') = [js ''a%26b%7Cc&running&5&3'']"
proof -
  let ?p = "\<lparr> p_name = js ''a&b|c'', p_state = RUNNING, timeSpentInPreviousIterations = Num 5,
             currentIterationStartTime = Num 3, onChange = Null \<rparr>"
  let ?ps = "\<lparr> projects_array = [?p], onAdd = Null, onRemove = Null \<rparr>"
  let ?t = "js ''a%26b%7Cc&running&5&3''"
  have h1: "\<forall>p \<in> set (projects_array ?ps). p_state p = STOPPED \<or> p_state p = RUNNING"
    by simp
  have t: "Project_serialize ?p = Inr ?t"
    by (simp add: Project_serialize_def encode_example Array_join_def RUNNING_def
        decimal_examples) (simp add: js_def)
  have h2: "Projects_serialize ?ps = Inr ?t"
    by (simp add: Projects_serialize_def t Array_join_def)
  from serialized_text_delimiters [OF h1 h2] obtain ts
    where ts: "serialize_each (projects_array ?ps) = Inr ts"
      and each: "\<forall>i < length ts.
              0x7C \<notin> set (ts ! i) \<and> count_list (ts ! i) 0x26 = 3 \<and>
              (\<exists>encoded.
                 encodeURIComponent (p_name (projects_array ?ps ! i)) = Inr encoded \<and>
                 String_split 0x26 (ts ! i) =
                   [encoded, ToString (p_state (projects_array ?ps ! i)),
                    NumberToString (timeSpentInPreviousIterations (projects_array ?ps ! i)),
                    NumberToString (currentIterationStartTime (projects_array ?ps ! i))])"
      and sp: "projects_array ?ps \<noteq> [] \<longrightarrow> String_split 0x7C ?t = ts"
    by blast
  have tse: "ts = [?t]"
    using ts by (simp add: t)
  from each have "0x7C \<notin> set ?t \<and> count_list ?t 0x26 = 3 \<and>
      String_split 0x26 ?t = [js ''a%26b%7Cc'', js ''running'', js ''5'', js ''3'']"
    by (simp add: tse encode_example RUNNING_def decimal_examples)
  with h2 sp show ?thesis
    by (simp add: tse)
qed

subsection \<open>The list in the application\<close>

lemma refresh_rows_tags: "list_all has_state_tag ps \<Longrightarrow> refresh_rows ps = None"
  by (induction ps)
     (auto simp: has_state_tag_def updateProjectRow_def computeStartStopLinkImageUrl_def)

lemma onAdd_handler_tag:
  "has_state_tag project \<Longrightarrow> onAdd_handler project = Inr (setOnChange row_updater project)"
  by (auto simp: onAdd_handler_def buildProjectRow_def computeStartStopLinkImageUrl_def
      has_state_tag_def)

text \<open>With no function in the \<open>onAdd\<close> slot, the application's list is the list of the class.\<close>

lemma app_add_each_no_handler:
  "onAdd ps = Null \<Longrightarrow> app_add_each parts ps = add_each parts ps"
proof (induction parts arbitrary: ps)
  case Nil
  then show ?case by simp
next
  case (Cons part parts)
  let ?ps1 = "ps\<lparr>projects_array :=
      projects_array ps @ [fst (snd (Project_deserialize part (new_Project [])))]\<rparr>"
  have "onAdd ?ps1 = Null"
    using Cons.prems by simp
  from Cons.IH [OF this] Cons.prems show ?case
    by (auto simp: app_add_def add_def Let_def split: prod.splits option.splits)
qed

lemma app_deserialize_no_handler:
  "onAdd ps = Null \<Longrightarrow> app_deserialize serialized ps = Projects_deserialize serialized ps"
  by (simp add: app_deserialize_def Projects_deserialize_def remove_all_result
      app_add_each_no_handler)

text \<open>
  The loop over the parts, when every part decodes to a project with a state tag: no
  exception, every project pushed, shown and given its \<open>onChange\<close> function.
\<close>

lemma app_add_each_result:
  assumes "\<forall>part \<in> set parts. fst (Project_deserialize part (new_Project [])) = None"
    and "\<forall>part \<in> set parts.
           has_state_tag (fst (snd (Project_deserialize part (new_Project []))))"
  shows "app_add_each parts ps =
     (None,
      ps\<lparr>projects_array := projects_array ps @
          shown_projects ps
            (map (\<lambda>part. fst (snd (Project_deserialize part (new_Project [])))) parts)\<rparr>,
      case onAdd ps of
        Null \<Rightarrow> []
      | Handler h \<Rightarrow>
          map (\<lambda>k. OnAdd (fst (snd (Project_deserialize (parts ! k) (new_Project []))))
                    (projects_array ps @
                     map (setOnChange row_updater)
                       (take k
                         (map (\<lambda>part. fst (snd (Project_deserialize part (new_Project []))))
                            parts)) @
                     [fst (snd (Project_deserialize (parts ! k) (new_Project [])))]))
              [0..<length parts])"
  using assms
proof (induction parts arbitrary: ps)
  case Nil
  then show ?case by (simp add: shown_projects_def split: slot.split)
next
  case (Cons part parts)
  obtain d where d: "Project_deserialize part (new_Project []) = (None, d, [])"
    using Cons.prems(1) by (auto simp: Project_deserialize_def Let_def split: sum.splits)
  have tag: "has_state_tag d"
    using Cons.prems(2) by (simp add: d)
  let ?shown = "case onAdd ps of Null \<Rightarrow> d | Handler h \<Rightarrow> setOnChange row_updater d"
  let ?ps1 = "ps\<lparr>projects_array := projects_array ps @ [?shown]\<rparr>"
  have a: "app_add d ps = (None, ?ps1, callOnAdd d (ps\<lparr>projects_array := projects_array ps @ [d]\<rparr>))"
    by (simp add: app_add_def add_def Let_def onAdd_handler_tag [OF tag] split: slot.split)
  have IH: "app_add_each parts ?ps1 =
     (None,
      ?ps1\<lparr>projects_array := projects_array ?ps1 @
          shown_projects ?ps1
            (map (\<lambda>part. fst (snd (Project_deserialize part (new_Project [])))) parts)\<rparr>,
      case onAdd ?ps1 of
        Null \<Rightarrow> []
      | Handler h \<Rightarrow>
          map (\<lambda>k. OnAdd (fst (snd (Project_deserialize (parts ! k) (new_Project []))))
                    (projects_array ?ps1 @
                     map (setOnChange row_updater)
                       (take k
                         (map (\<lambda>part. fst (snd (Project_deserialize part (new_Project []))))
                            parts)) @
                     [fst (snd (Project_deserialize (parts ! k) (new_Project [])))]))
              [0..<length parts])"
    using Cons.IH [of ?ps1] Cons.prems by simp
  show ?case
    by (simp add: d a IH callOnAdd_def shown_projects_def map_upt_Suc
        del: upt_Suc split: slot.split)
qed

lemma app_deserialize_result:
  assumes "decodable serialized" and "list_all has_state_tag (decoded_projects serialized)"
  shows "app_deserialize serialized ps =
     (None, ps\<lparr>projects_array := shown_projects ps (decoded_projects serialized)\<rparr>,
      removal_calls ps @ app_addition_calls ps (decoded_projects serialized))"
proof -
  let ?parts = "String_split 0x7C serialized"
  let ?ps1 = "ps\<lparr>projects_array := []\<rparr>"
  have ok: "\<forall>part \<in> set ?parts. fst (Project_deserialize part (new_Project [])) = None"
    using assms(1) by (simp add: decodable_def list_all_iff)
  have tags: "\<forall>part \<in> set ?parts.
      has_state_tag (fst (snd (Project_deserialize part (new_Project []))))"
    using assms(2) by (simp add: decoded_projects_def list_all_iff)
  have a: "app_add_each ?parts ?ps1 =
      (None, ps\<lparr>projects_array := shown_projects ps (decoded_projects serialized)\<rparr>,
       app_addition_calls ps (decoded_projects serialized))"
    unfolding app_add_each_result [OF ok tags, of ?ps1]
    by (simp add: decoded_projects_def app_addition_calls_def shown_projects_def
        split: slot.split cong: map_cong)
  show ?thesis
    unfolding app_deserialize_def remove_all_result [of ps]
    by (simp add: a removal_calls_def)
qed

text \<open>
  The projects in the application's list differ from the decoded ones in the \<open>onChange\<close>
  slot only.
\<close>

lemma shown_projects_fields:
  "map (\<lambda>p. p\<lparr>onChange := Null\<rparr>) (shown_projects ps (decoded_projects serialized)) =
     decoded_projects serialized"
proof -
  have "onChange (fst (snd (Project_deserialize part (new_Project [])))) = Null" for part
    by (simp add: Project_deserialize_def Let_def new_Project_def split: sum.split)
  then have "\<forall>d \<in> set (decoded_projects serialized). d\<lparr>onChange := Null\<rparr> = d"
    by (auto simp: decoded_projects_def)
  then show ?thesis
    by (auto simp: shown_projects_def setOnChange_def comp_def map_idI split: slot.split)
qed

text \<open>
  C4, amended: the tick of the synchronization timer, in a list whose projects have
  proper state tags (so that refreshing the rows raises nothing). When the storage holds
  a text that differs from \<open>lastSerializedProjectsString\<close>, and every part of the text
  decodes without an exception to a project with a proper state tag (so that neither
  \<open>decodeURIComponent\<close> nor the \<open>onAdd\<close> handler of the application raises), the list
  becomes the decoding of that text: through \<open>remove\<close> and \<open>add\<close>, so the function in
  \<open>onRemove\<close> is called for every project the list had, then the function in \<open>onAdd\<close> for
  every decoded project, which gives the project its \<open>onChange\<close> function; and
  \<open>lastSerializedProjectsString\<close> becomes the stored text. When the stored value equals
  \<open>lastSerializedProjectsString\<close>, nothing changes and no handler is called. (The empty
  text is not covered: its one part decodes to a project without a state tag.)
\<close>

theorem timer_tick_synchronizes:
  assumes "list_all has_state_tag (projects_array (projects a))"
  shows "(storage a = Some s \<and> lastSerializedProjectsString a \<noteq> Some s \<and> decodable s \<and>
          list_all has_state_tag (decoded_projects s) \<longrightarrow>
            timer_tick a =
              (None,
               a\<lparr>projects :=
                    (projects a)\<lparr>projects_array :=
                                   shown_projects (projects a) (decoded_projects s)\<rparr>,
                 lastSerializedProjectsString := Some s\<rparr>,
               removal_calls (projects a) @
               app_addition_calls (projects a) (decoded_projects s))) \<and>
         (storage a = lastSerializedProjectsString a \<longrightarrow> timer_tick a = (None, a, []))"
  using refresh_rows_tags [OF assms]
  by (auto simp: timer_tick_def projectsHaveChangedOutsideApplication_def loadProjects_def
      loadSerializedProjectsString_def app_deserialize_result)

lemma deserialize_example:
  "Project_deserialize (js ''a%26b&running&5&3'') q =
     (None,
      q\<lparr>p_name := js ''a&b'', p_state := RUNNING, timeSpentInPreviousIterations := Num 5,
        currentIterationStartTime := Num 3\<rparr>,
      [])"
  by (simp add: Project_deserialize_def split_example Array_get_def decode_example js_digits
      parseInt_digit RUNNING_def)

lemma decoded_example:
  "decodable (js ''a%26b&running&5&3'')"
  "decoded_projects (js ''a%26b&running&5&3'') =
     [\<lparr> p_name = js ''a&b'', p_state = RUNNING, timeSpentInPreviousIterations = Num 5,
        currentIterationStartTime = Num 3, onChange = Null \<rparr>]"
proof -
  have sp: "String_split 0x7C (js ''a%26b&running&5&3'') = [js ''a%26b&running&5&3'']"
    by (simp add: js_def)
  show "decodable (js ''a%26b&running&5&3'')"
    unfolding decodable_def sp by (simp add: deserialize_example)
  show "decoded_projects (js ''a%26b&running&5&3'') =
     [\<lparr> p_name = js ''a&b'', p_state = RUNNING, timeSpentInPreviousIterations = Num 5,
        currentIterationStartTime = Num 3, onChange = Null \<rparr>]"
    unfolding decoded_projects_def sp by (simp add: deserialize_example new_Project_def)
qed

theorem timer_tick_synchronizes_witness:
  "timer_tick
     \<lparr> projects = \<lparr> projects_array = [new_Project (js ''Old'')],
                    onAdd = Handler 1, onRemove = Handler 2 \<rparr>,
       lastSerializedProjectsString = Some (js ''Old&stopped&0&0''),
       storage = Some (js ''a%26b&running&5&3'') \<rparr> =
     (None,
      \<lparr> projects =
          \<lparr> projects_array =
              [\<lparr> p_name = js ''a&b'', p_state = RUNNING, timeSpentInPreviousIterations = Num 5,
                 currentIterationStartTime = Num 3, onChange = row_updater \<rparr>],
            onAdd = Handler 1, onRemove = Handler 2 \<rparr>,
        lastSerializedProjectsString = Some (js ''a%26b&running&5&3''),
        storage = Some (js ''a%26b&running&5&3'') \<rparr>,
      [OnRemove 0 [new_Project (js ''Old'')],
       OnAdd \<lparr> p_name = js ''a&b'', p_state = RUNNING, timeSpentInPreviousIterations = Num 5,
               currentIterationStartTime = Num 3, onChange = Null \<rparr>
             [\<lparr> p_name = js ''a&b'', p_state = RUNNING, timeSpentInPreviousIterations = Num 5,
                currentIterationStartTime = Num 3, onChange = Null \<rparr>]]) \<and>
   timer_tick
     \<lparr> projects = new_Projects, lastSerializedProjectsString = Some (js ''x''),
       storage = Some (js ''x'') \<rparr> =
     (None,
      \<lparr> projects = new_Projects, lastSerializedProjectsString = Some (js ''x''),
        storage = Some (js ''x'') \<rparr>,
      [])"
proof -
  let ?a = "\<lparr> projects = \<lparr> projects_array = [new_Project (js ''Old'')],
                    onAdd = Handler 1, onRemove = Handler 2 \<rparr>,
       lastSerializedProjectsString = Some (js ''Old&stopped&0&0''),
       storage = Some (js ''a%26b&running&5&3'') \<rparr>"
  let ?b = "\<lparr> projects = new_Projects, lastSerializedProjectsString = Some (js ''x''),
       storage = Some (js ''x'') \<rparr>"
  have h: "storage ?a = Some (js ''a%26b&running&5&3'') \<and>
      lastSerializedProjectsString ?a \<noteq> Some (js ''a%26b&running&5&3'') \<and>
      decodable (js ''a%26b&running&5&3'') \<and>
      list_all has_state_tag (decoded_projects (js ''a%26b&running&5&3''))"
    by (simp add: decoded_example has_state_tag_def) (simp add: js_def)
  have k: "storage ?b = lastSerializedProjectsString ?b"
    by simp
  have ta: "list_all has_state_tag (projects_array (projects ?a))"
    by (simp add: has_state_tag_def new_Project_def)
  have tb: "list_all has_state_tag (projects_array (projects ?b))"
    by (simp add: new_Projects_def)
  from timer_tick_synchronizes [OF ta, of "js ''a%26b&running&5&3''"] h
    timer_tick_synchronizes [OF tb, of "js ''x''"] k
  show ?thesis
    by (simp add: decoded_example(2) removal_calls_def app_addition_calls_def
        shown_projects_def setOnChange_def)
qed

text \<open>
  Without the condition on the stored text the claim fails. The list holds one project
  and the storage the text \<open>%\<close>, which differs from \<open>lastSerializedProjectsString\<close>: the
  tick removes the project, \<open>decodeURIComponent\<close> raises \<open>URIError\<close>, and the tick ends
  with an empty list and with \<open>lastSerializedProjectsString\<close> as it was.
\<close>

theorem timer_tick_synchronizes_counterexample:
  "storage
     \<lparr> projects = \<lparr> projects_array = [new_Project (js ''Old'')],
                    onAdd = Handler 1, onRemove = Handler 2 \<rparr>,
       lastSerializedProjectsString = Some (js ''Old&stopped&0&0''),
       storage = Some (js ''%'') \<rparr> = Some (js ''%'') \<and>
   Some (js ''Old&stopped&0&0'') \<noteq> Some (js ''%'') \<and>
   timer_tick
     \<lparr> projects = \<lparr> projects_array = [new_Project (js ''Old'')],
                    onAdd = Handler 1, onRemove = Handler 2 \<rparr>,
       lastSerializedProjectsString = Some (js ''Old&stopped&0&0''),
       storage = Some (js ''%'') \<rparr> =
     (Some URIError,
      \<lparr> projects = \<lparr> projects_array = [], onAdd = Handler 1, onRemove = Handler 2 \<rparr>,
        lastSerializedProjectsString = Some (js ''Old&stopped&0&0''),
        storage = Some (js ''%'') \<rparr>,
      [OnRemove 0 [new_Project (js ''Old'')]])"
proof -
  have ne: "js ''%'' \<noteq> js ''Old&stopped&0&0''"
    by (simp add: js_def)
  have d: "Project_deserialize (js ''%'') (new_Project []) = (Some URIError, new_Project [], [])"
    by (simp add: Project_deserialize_def js_def Array_get_def decode_escape_def)
  have sp: "String_split 0x7C (js ''%'') = [js ''%'']"
    by (simp add: js_def)
  have r: "updateProjectRow (new_Project (js ''Old'')) = None"
    by (simp add: updateProjectRow_def computeStartStopLinkImageUrl_def new_Project_def)
  show ?thesis
    using ne
    by (simp add: timer_tick_def r projectsHaveChangedOutsideApplication_def loadProjects_def
        loadSerializedProjectsString_def app_deserialize_def remove_all_result sp d)
qed

text \<open>
  The empty text, which \<open>saveProjects\<close> stores for the empty list: its one part decodes to
  a project without a state tag, the \<open>onAdd\<close> handler of the application throws while it
  builds the row, and the tick ends with that project in the list and with
  \<open>lastSerializedProjectsString\<close> as it was.
\<close>

lemma timer_tick_empty_text:
  "timer_tick
     \<lparr> projects = \<lparr> projects_array = [new_Project (js ''Old'')],
                    onAdd = Handler 1, onRemove = Handler 2 \<rparr>,
       lastSerializedProjectsString = Some (js ''Old&stopped&0&0''),
       storage = Some [] \<rparr> =
     (Some InvalidProjectState,
      \<lparr> projects =
          \<lparr> projects_array =
              [\<lparr> p_name = [], p_state = Undefined, timeSpentInPreviousIterations = NaN,
                 currentIterationStartTime = NaN, onChange = Null \<rparr>],
            onAdd = Handler 1, onRemove = Handler 2 \<rparr>,
        lastSerializedProjectsString = Some (js ''Old&stopped&0&0''),
        storage = Some [] \<rparr>,
      [OnRemove 0 [new_Project (js ''Old'')],
       OnAdd \<lparr> p_name = [], p_state = Undefined, timeSpentInPreviousIterations = NaN,
               currentIterationStartTime = NaN, onChange = Null \<rparr>
             [\<lparr> p_name = [], p_state = Undefined, timeSpentInPreviousIterations = NaN,
                currentIterationStartTime = NaN, onChange = Null \<rparr>]])"
proof -
  have ne: "[] \<noteq> js ''Old&stopped&0&0''"
    by (simp add: js_def)
  have d: "Project_deserialize [] (new_Project []) =
      (None,
       \<lparr> p_name = [], p_state = Undefined, timeSpentInPreviousIterations = NaN,
         currentIterationStartTime = NaN, onChange = Null \<rparr>,
       [])"
    by (simp add: Project_deserialize_def Array_get_def parseInt_Undefined new_Project_def)
  have r: "updateProjectRow (new_Project (js ''Old'')) = None"
    by (simp add: updateProjectRow_def computeStartStopLinkImageUrl_def new_Project_def)
  have h: "onAdd_handler
      \<lparr> p_name = [], p_state = Undefined, timeSpentInPreviousIterations = NaN,
        currentIterationStartTime = NaN, onChange = Null \<rparr> = Inl InvalidProjectState"
    by (simp add: onAdd_handler_def buildProjectRow_def computeStartStopLinkImageUrl_def
        STOPPED_def RUNNING_def)
  show ?thesis
    using ne
    by (simp add: timer_tick_def r projectsHaveChangedOutsideApplication_def loadProjects_def
        loadSerializedProjectsString_def app_deserialize_def remove_all_result d
        app_add_def add_def callOnAdd_def h)
qed

end
